theory Spec2Isabelle
  imports Complex_Main
begin

section \<open>Profile construction, resampling and shortening (profile.py)\<close>

text \<open>
  The functions of \<^verbatim>\<open>src/antarctic_plots/profile.py\<close> that build and consume
  profiles are embedded as functions over tables. Coordinates and distances are real
  numbers and every arithmetic operation is exact: rounding and overflow of
  the floating point numbers of the source are not part of the model. A missing value
  (NaN) is \<open>None\<close> in a cell of type \<open>real option\<close>.
\<close>

subsection \<open>Errors\<close>

text \<open>The exception classes that the modelled functions can raise.\<close>

datatype error =
    ValueError
  | IndexError
  | KeyError
  | AssertionError
  | NotImplementedError
  | ArithmeticError

subsection \<open>Tables of points\<close>

text \<open>
  A vertex is a pair of coordinates. A row of a profile has the columns
  \<^verbatim>\<open>x\<close>, \<^verbatim>\<open>y\<close> and \<^verbatim>\<open>dist\<close>; the record is extensible, so that a
  row may carry further columns. The table returned by \<^verbatim>\<open>cum_dist\<close> also has
  the column \<^verbatim>\<open>rel_dist\<close>.
\<close>

type_synonym vertex = "real \<times> real"

record point =
  col_x :: real
  col_y :: real
  col_dist :: real

record path_row = point +
  col_rel_dist :: real

definition euclidean :: "vertex \<Rightarrow> vertex \<Rightarrow> real" where
  "euclidean p q = sqrt ((fst q - fst p)\<^sup>2 + (snd q - snd p)\<^sup>2)"

subsection \<open>numpy.linspace\<close>

text \<open>
  \<^verbatim>\<open>np.linspace(start, stop, num)\<close>: \<open>num\<close> evenly spaced samples with both
  end points included, the last sample being \<open>stop\<close> itself when there is more than
  one. A negative \<open>num\<close> raises ValueError; \<open>num = 1\<close> gives the single sample
  \<open>start\<close>.
\<close>

definition linspace :: "real \<Rightarrow> real \<Rightarrow> int \<Rightarrow> error + real list" where
  "linspace start stop num =
     (if num < 0 then Inl ValueError
      else
        let n = nat num;
            step = (stop - start) / real (n - 1);
            y = map (\<lambda>i. start + real i * step) [0..<n]
        in Inr (if 1 < n then y[n - 1 := stop] else y))"

text \<open>The same call on a pair of end points works on each coordinate.\<close>

definition linspace_pts :: "vertex \<Rightarrow> vertex \<Rightarrow> int \<Rightarrow> error + vertex list" where
  "linspace_pts start stop num =
     (case linspace (fst start) (fst stop) num of
        Inl e \<Rightarrow> Inl e
      | Inr xs \<Rightarrow>
          (case linspace (snd start) (snd stop) num of
             Inl e \<Rightarrow> Inl e
           | Inr ys \<Rightarrow> Inr (zip xs ys)))"

subsection \<open>rel\_dist and cum\_dist\<close>

text \<open>
  \<^verbatim>\<open>Series.shift(1)\<close> moves every value one row down; the first row gets NaN.
\<close>

definition shift1 :: "real list \<Rightarrow> real option list" where
  "shift1 xs = (if xs = [] then [] else None # map Some (butlast xs))"

text \<open>
  The distance of a row to the lagged coordinates; NaN when a lagged coordinate is NaN.
\<close>

definition lag_dist :: "vertex \<Rightarrow> real option \<Rightarrow> real option \<Rightarrow> real option" where
  "lag_dist v x_lag y_lag =
     (case (x_lag, y_lag) of
        (Some a, Some b) \<Rightarrow> Some (sqrt ((fst v - a)\<^sup>2 + (snd v - b)\<^sup>2))
      | _ \<Rightarrow> None)"

text \<open>
  \<^verbatim>\<open>dropna(subset=["rel_dist"])\<close> removes every row whose \<^verbatim>\<open>rel_dist\<close> is NaN.
\<close>

definition dropna :: "('a \<times> real option) list \<Rightarrow> ('a \<times> real) list" where
  "dropna rows = [(v, d). (v, Some d) \<leftarrow> rows]"

text \<open>
  \<^verbatim>\<open>rel_dist\<close>: the distance of every row to the row before it. The lagged
  columns are NaN in the first row, hence so is \<^verbatim>\<open>rel_dist\<close> there. The result
  pairs each vertex that is left with its \<^verbatim>\<open>rel_dist\<close>.
\<close>

definition rel_dist :: "vertex list \<Rightarrow> bool \<Rightarrow> (vertex \<times> real) list" where
  "rel_dist df reverse =
     (let df1 = (if reverse then rev df else df);
          x_lag = shift1 (map fst df1);
          y_lag = shift1 (map snd df1);
          rel = map (\<lambda>(v, xl, yl). lag_dist v xl yl) (zip df1 (zip x_lag y_lag))
      in dropna (zip df1 rel))"

text \<open>\<^verbatim>\<open>Series.cumsum\<close>: running sums, here with the running total made explicit.\<close>

fun cumsum_from :: "real \<Rightarrow> real list \<Rightarrow> real list" where
  "cumsum_from acc [] = []"
| "cumsum_from acc (d # ds) = (acc + d) # cumsum_from (acc + d) ds"

definition cumsum :: "real list \<Rightarrow> real list" where
  "cumsum ds = cumsum_from 0 ds"

definition path_row_of :: "vertex \<times> real \<Rightarrow> real \<Rightarrow> path_row" where
  "path_row_of vr d = \<lparr>col_x = fst (fst vr), col_y = snd (fst vr), col_dist = d, col_rel_dist = snd vr\<rparr>"

definition cum_dist :: "vertex list \<Rightarrow> bool \<Rightarrow> path_row list" where
  "cum_dist df reverse =
     (let df1 = rel_dist df reverse
      in map (\<lambda>(vr, d). path_row_of vr d) (zip df1 (cumsum (map snd df1))))"

subsection \<open>Resampling\<close>

text \<open>
  The cubic interpolation is done by pandas and scipy. The value of the cubic spline
  through the known points \<open>known\<close> at a position \<open>t\<close> is a parameter \<open>spline\<close> of
  the model; it may raise. What the model fixes is the part of the behaviour the
  source relies on: a column without NaN is returned as it is, without any
  interpolation, and a cubic spline through fewer than 4 known points raises
  ValueError. (A column of NaN only, which pandas would return as it is, does not
  occur: every row of the path keeps its label and its values.)
\<close>

type_synonym spline = "(real \<times> real) list \<Rightarrow> real \<Rightarrow> error + real"

fun collect :: "(error + 'a) list \<Rightarrow> error + 'a list" where
  "collect [] = Inr []"
| "collect (Inl e # rs) = Inl e"
| "collect (Inr v # rs) = (case collect rs of Inl e \<Rightarrow> Inl e | Inr vs \<Rightarrow> Inr (v # vs))"

definition interpolate_column ::
  "spline \<Rightarrow> real list \<Rightarrow> real option list \<Rightarrow> error + real list" where
  "interpolate_column spline idx col =
     (let known = [(t, v). (t, Some v) \<leftarrow> zip idx col]
      in if length known = length col then Inr (map snd known)
         else if length known < 4 then Inl ValueError
         else collect (map (\<lambda>(t, c). case c of Some v \<Rightarrow> Inr v | None \<Rightarrow> spline known t)
                           (zip idx col)))"

text \<open>
  \<^verbatim>\<open>df.index.union(dist_resampled)\<close> for two ascending lists of labels: the
  labels of both in ascending order. A label that both have is taken once for each
  pair of occurrences, so it is kept as often as it occurs where it occurs most.
\<close>

fun index_union :: "real list \<Rightarrow> real list \<Rightarrow> real list" where
  "index_union [] ys = ys"
| "index_union xs [] = xs"
| "index_union (x # xs) (y # ys) =
     (if x < y then x # index_union xs (y # ys)
      else if y < x then y # index_union (x # xs) ys
      else x # index_union xs ys)"

text \<open>
  \<^verbatim>\<open>df.reindex(labels)\<close> on the table indexed by \<^verbatim>\<open>dist\<close>: one row per label,
  with the values of the row that has this label and NaN in every column where there is
  none. Labels equal to the index leave the table as it is; otherwise pandas refuses to
  reindex a table whose labels repeat (ValueError).
\<close>

definition reindex :: "path_row list \<Rightarrow> real list \<Rightarrow> error + path_row option list" where
  "reindex df labels =
     (if labels = map col_dist df then Inr (map Some df)
      else if \<not> distinct (map col_dist df) then Inl ValueError
      else Inr (map (\<lambda>d. find (\<lambda>r. col_dist r = d) df) labels))"

definition dist_min :: "path_row list \<Rightarrow> real" where
  "dist_min df = Min (set (map col_dist df))"

definition dist_max :: "path_row list \<Rightarrow> real" where
  "dist_max df = Max (set (map col_dist df))"

text \<open>
  The body of the \<^verbatim>\<open>try\<close> block of \<^verbatim>\<open>create_profile\<close> for a given \<open>num\<close>.
  On a table without rows the minimum and maximum of \<^verbatim>\<open>dist\<close> are NaN: then
  \<^verbatim>\<open>linspace\<close> gives \<open>num\<close> NaN labels and pandas refuses to interpolate over an
  index with NaN (NotImplementedError), unless \<open>num\<close> is 0 and nothing is left to do.
\<close>

definition resample :: "spline \<Rightarrow> path_row list \<Rightarrow> int \<Rightarrow> error + path_row list" where
  "resample spline coords num =
     (if coords = [] then
        (if num < 0 then Inl ValueError
         else if num = 0 then Inr []
         else Inl NotImplementedError)
      else
        case linspace (dist_min coords) (dist_max coords) num of
          Inl e \<Rightarrow> Inl e
        | Inr dist_resampled \<Rightarrow>
            let labels = index_union (map col_dist coords) dist_resampled in
            (case reindex coords labels of
               Inl e \<Rightarrow> Inl e
             | Inr df \<Rightarrow>
                 (case interpolate_column spline labels (map (map_option col_x) df) of
                    Inl e \<Rightarrow> Inl e
                  | Inr xs \<Rightarrow>
                 (case interpolate_column spline labels (map (map_option col_y) df) of
                    Inl e \<Rightarrow> Inl e
                  | Inr ys \<Rightarrow>
                 (case interpolate_column spline labels (map (map_option col_rel_dist) df) of
                    Inl e \<Rightarrow> Inl e
                  | Inr rs \<Rightarrow>
                      let df1 = map (\<lambda>(d, x, y, r).
                                  \<lparr>col_x = x, col_y = y, col_dist = d, col_rel_dist = r\<rparr>)
                                (zip labels (zip xs (zip ys rs)))
                      in Inr (filter (\<lambda>r. col_dist r \<in> set dist_resampled) df1))))))"

subsection \<open>create\_profile\<close>

text \<open>
  \<^verbatim>\<open>create_profile(method, start, stop, num, shapefile, polyline, **kwargs)\<close>.
  An omitted argument is \<open>None\<close>. The argument \<open>shapefile\<close> stands for the vertices
  of the first geometry of the named file, which the source reads with pyogrio;
  \<open>reverse\<close> is the keyword argument that \<^verbatim>\<open>cum_dist\<close> takes from \<^verbatim>\<open>kwargs\<close>.
  In the points mode \<^verbatim>\<open>coordinates.x.iloc[0]\<close> raises IndexError on a table
  without rows. \<^verbatim>\<open>sort_values(by=["dist"])\<close> is a stable sort here; rows that
  share a \<^verbatim>\<open>dist\<close> have the same \<^verbatim>\<open>x\<close> and \<^verbatim>\<open>y\<close> in both modes, so
  their order does not show in the result. Only a ValueError of the resampling is
  caught (\<open>resample_or_keep\<close> is the \<^verbatim>\<open>try\<close> statement); the profile is then
  the table that was not resampled. The result keeps the columns \<^verbatim>\<open>x\<close>,
  \<^verbatim>\<open>y\<close>, \<^verbatim>\<open>dist\<close>.
\<close>

definition xyd :: "'a point_scheme \<Rightarrow> point" where
  "xyd r = \<lparr>col_x = col_x r, col_y = col_y r, col_dist = col_dist r\<rparr>"

definition resample_or_keep :: "spline \<Rightarrow> path_row list \<Rightarrow> int option \<Rightarrow> error + path_row list" where
  "resample_or_keep spline coords num =
     (case num of
        None \<Rightarrow> Inr coords
      | Some n \<Rightarrow>
          (case resample spline coords n of
             Inl ValueError \<Rightarrow> Inr coords
           | Inl e \<Rightarrow> Inl e
           | Inr df2 \<Rightarrow> Inr df2))"

definition create_profile ::
  "spline \<Rightarrow> string \<Rightarrow> vertex option \<Rightarrow> vertex option \<Rightarrow> int option \<Rightarrow>
   vertex list option \<Rightarrow> vertex list option \<Rightarrow> bool \<Rightarrow> error + point list" where
  "create_profile spline method start stop num shapefile polyline reverse =
     (if method \<notin> {''points'', ''shapefile'', ''polyline''} then Inl ValueError
      else if method = ''points'' then
        (let num = (case num of None \<Rightarrow> 1000 | Some n \<Rightarrow> n) in
         case (start, stop) of
           (Some start, Some stop) \<Rightarrow>
             (case linspace_pts start stop num of
                Inl e \<Rightarrow> Inl e
              | Inr [] \<Rightarrow> Inl IndexError
              | Inr (c0 # cs) \<Rightarrow>
                  let coordinates =
                        map (\<lambda>c. \<lparr>col_x = fst c, col_y = snd c,
                                  col_dist = sqrt ((fst c - fst c0)\<^sup>2 + (snd c - snd c0)\<^sup>2)\<rparr>)
                            (c0 # cs);
                      coords = sort_key col_dist coordinates
                  in Inr (map xyd coords))
         | _ \<Rightarrow> Inl ValueError)
      else
        case (if method = ''shapefile'' then shapefile else polyline) of
          None \<Rightarrow> Inl ValueError
        | Some vs \<Rightarrow>
            let coordinates = cum_dist vs reverse;
                coords = sort_key col_dist coordinates
            in (case resample_or_keep spline coords num of
                  Inl e \<Rightarrow> Inl e
                | Inr df2 \<Rightarrow> Inr (map xyd df2)))"

subsection \<open>Closed forms\<close>

text \<open>
  The rows that \<^verbatim>\<open>rel_dist\<close> leaves, written by recursion over the vertices: each
  vertex but the first, with the length of the segment that ends in it.
\<close>

fun segments :: "vertex list \<Rightarrow> (vertex \<times> real) list" where
  "segments (p # q # rest) = (q, euclidean p q) # segments (q # rest)"
| "segments vs = []"

text \<open>Row \<open>i\<close> of the \<open>n\<close> evenly spaced points between two end points.\<close>

definition points_row :: "vertex \<Rightarrow> vertex \<Rightarrow> nat \<Rightarrow> nat \<Rightarrow> point" where
  "points_row start stop n i =
     \<lparr>col_x = fst start + real i * ((fst stop - fst start) / real (n - 1)),
      col_y = snd start + real i * ((snd stop - snd start) / real (n - 1)),
      col_dist = real i * sqrt (((fst stop - fst start) / real (n - 1))\<^sup>2
                              + ((snd stop - snd start) / real (n - 1))\<^sup>2)\<rparr>"

text \<open>
  A stand-in for the spline, for the examples that have to name one: it raises
  whenever it is asked for a value.
\<close>

definition failing_spline :: spline where
  "failing_spline known t = Inl ArithmeticError"

text \<open>Another stand-in: it yields 0 at every position.\<close>

definition zero_spline :: spline where
  "zero_spline known t = Inr 0"

subsection \<open>shorten\<close>

text \<open>
  \<^verbatim>\<open>Series.max\<close> and \<^verbatim>\<open>Series.min\<close> of a column without rows are NaN, and
  every comparison with NaN is false. Once the default has been filled in, a bound is
  a \<open>real option\<close> with \<open>None\<close> for NaN.
\<close>

definition series_max :: "real list \<Rightarrow> real option" where
  "series_max xs = (if xs = [] then None else Some (Max (set xs)))"

definition series_min :: "real list \<Rightarrow> real option" where
  "series_min xs = (if xs = [] then None else Some (Min (set xs)))"

definition less_nan :: "real \<Rightarrow> real option \<Rightarrow> bool" where
  "less_nan d bound = (case bound of None \<Rightarrow> False | Some m \<Rightarrow> d < m)"

definition greater_nan :: "real \<Rightarrow> real option \<Rightarrow> bool" where
  "greater_nan d bound = (case bound of None \<Rightarrow> False | Some m \<Rightarrow> m < d)"

text \<open>
  \<^verbatim>\<open>if max_dist is None: max_dist = df.dist.max()\<close>, and the same for the
  minimum: an omitted bound (\<open>None\<close> as an argument) is replaced by the maximum or
  minimum of the column \<^verbatim>\<open>dist\<close>.
\<close>

definition upper_bound :: "'a point_scheme list \<Rightarrow> real option \<Rightarrow> real option" where
  "upper_bound df max_dist =
     (case max_dist of None \<Rightarrow> series_max (map col_dist df) | Some m \<Rightarrow> Some m)"

definition lower_bound :: "'a point_scheme list \<Rightarrow> real option \<Rightarrow> real option" where
  "lower_bound df min_dist =
     (case min_dist of None \<Rightarrow> series_min (map col_dist df) | Some m \<Rightarrow> Some m)"

text \<open>
  \<^verbatim>\<open>shorten(df, max_dist, min_dist)\<close>: the rows strictly inside the bounds are
  copied, and \<^verbatim>\<open>dist\<close> is computed anew from the first row of the copy.
  \<^verbatim>\<open>iloc[0]\<close> on a table without rows raises IndexError. All other columns of a
  row stay as they are.
\<close>

definition shorten ::
  "'a point_scheme list \<Rightarrow> real option \<Rightarrow> real option \<Rightarrow> error + 'a point_scheme list" where
  "shorten df max_dist min_dist =
     (let max_dist = upper_bound df max_dist;
          min_dist = lower_bound df min_dist;
          shortened = filter (\<lambda>r. less_nan (col_dist r) max_dist \<and> greater_nan (col_dist r) min_dist) df
      in case shortened of
           [] \<Rightarrow> Inl IndexError
         | r0 # rs \<Rightarrow>
             Inr (map (\<lambda>r. r\<lparr>col_dist := sqrt ((col_x r - col_x r0)\<^sup>2 + (col_y r - col_y r0)\<^sup>2)\<rparr>)
                      shortened))"

section \<open>Tables with named columns: sample\_grids and fill\_nans\<close>

text \<open>
  Where the names of the columns and the index matter, a table is a record of its index
  (an optional name and the row labels) and its columns in order, each a name with one
  cell per row. A cell is a number or NaN (\<open>None\<close>).
\<close>

type_synonym cell = "real option"

record frame =
  index_name :: "string option"
  index_labels :: "cell list"
  columns :: "(string \<times> cell list) list"

definition column_names :: "frame \<Rightarrow> string list" where
  "column_names df = map fst (columns df)"

text \<open>
  A well-formed table is rectangular and no two of its columns have the same name.
\<close>

definition wf_frame :: "frame \<Rightarrow> bool" where
  "wf_frame df \<longleftrightarrow>
     distinct (column_names df) \<and>
     list_all (\<lambda>c. length (snd c) = length (index_labels df)) (columns df)"

text \<open>\<^verbatim>\<open>df[name]\<close>: KeyError when there is no such column.\<close>

definition get_column :: "frame \<Rightarrow> string \<Rightarrow> error + cell list" where
  "get_column df name =
     (case map_of (columns df) name of None \<Rightarrow> Inl KeyError | Some c \<Rightarrow> Inr c)"

text \<open>
  \<^verbatim>\<open>df[name] = values\<close>: replaces the column of this name where it stands, or
  appends a new column as the last one.
\<close>

definition set_column :: "frame \<Rightarrow> string \<Rightarrow> cell list \<Rightarrow> frame" where
  "set_column df name values =
     (if name \<in> set (column_names df)
      then df\<lparr>columns := map (\<lambda>c. if fst c = name then (name, values) else c) (columns df)\<rparr>
      else df\<lparr>columns := columns df @ [(name, values)]\<rparr>)"

text \<open>\<^verbatim>\<open>df.drop(columns=name)\<close>: KeyError when there is no such column.\<close>

definition drop_column :: "frame \<Rightarrow> string \<Rightarrow> error + frame" where
  "drop_column df name =
     (if name \<in> set (column_names df)
      then Inr (df\<lparr>columns := filter (\<lambda>c. fst c \<noteq> name) (columns df)\<rparr>)
      else Inl KeyError)"

text \<open>
  \<^verbatim>\<open>df.reset_index()\<close>: the index becomes the first column, under the name of the
  index, or under \<^verbatim>\<open>index\<close> when the index has no name (\<^verbatim>\<open>level_0\<close> when a
  column \<^verbatim>\<open>index\<close> exists already); ValueError when a column of that name exists.
  The new index numbers the rows from 0 and has no name.
\<close>

definition reset_index :: "frame \<Rightarrow> error + frame" where
  "reset_index df =
     (let name = (case index_name df of
                    Some n \<Rightarrow> n
                  | None \<Rightarrow> if ''index'' \<in> set (column_names df) then ''level_0'' else ''index'')
      in if name \<in> set (column_names df) then Inl ValueError
         else Inr \<lparr>index_name = None,
                   index_labels = map (\<lambda>i. Some (real i)) [0..<length (index_labels df)],
                   columns = (name, index_labels df) # columns df\<rparr>)"

text \<open>
  \<^verbatim>\<open>df.set_index(name)\<close>: the column of this name becomes the index and is removed
  from the columns; KeyError when there is no such column.
\<close>

definition set_index :: "frame \<Rightarrow> string \<Rightarrow> error + frame" where
  "set_index df name =
     (case map_of (columns df) name of
        None \<Rightarrow> Inl KeyError
      | Some c \<Rightarrow> Inr \<lparr>index_name = Some name,
                        index_labels = c,
                        columns = filter (\<lambda>c. fst c \<noteq> name) (columns df)\<rparr>)"

text \<open>
  \<^verbatim>\<open>pygmt.grdtrack\<close> with \<^verbatim>\<open>no_skip=True\<close> gives one sampled value for every
  point, in the order of the points. The grid is a parameter: the value it yields at a
  position, NaN where it has none.
\<close>

type_synonym grid = "cell \<Rightarrow> cell \<Rightarrow> cell"

definition grdtrack :: "grid \<Rightarrow> cell list \<Rightarrow> cell list \<Rightarrow> cell list" where
  "grdtrack g xs ys = map (\<lambda>(x, y). g x y) (zip xs ys)"

text \<open>
  \<^verbatim>\<open>sample_grids(df, grid, sampled_name, coord_names=("x", "y"))\<close>. The input is
  not written to: every step works on a copy. \<^verbatim>\<open>assert_frame_equal\<close> raises
  AssertionError unless the result without the sampled column is the table \<open>df1\<close>.
\<close>

definition sample_grids :: "frame \<Rightarrow> grid \<Rightarrow> string \<Rightarrow> string \<times> string \<Rightarrow> error + frame" where
  "sample_grids df g sampled_name coord_names =
     (let df1 = (case drop_column df sampled_name of Inl e \<Rightarrow> df | Inr d \<Rightarrow> d)
      in case reset_index df1 of
           Inl e \<Rightarrow> Inl e
         | Inr df3 \<Rightarrow>
        (case get_column df3 (fst coord_names) of
           Inl e \<Rightarrow> Inl e
         | Inr xs \<Rightarrow>
        (case get_column df3 (snd coord_names) of
           Inl e \<Rightarrow> Inl e
         | Inr ys \<Rightarrow>
             let sampled = grdtrack g xs ys;
                 df3 = set_column df3 sampled_name sampled
             in (case set_index df3 ''index'' of
                   Inl e \<Rightarrow> Inl e
                 | Inr df4 \<Rightarrow>
                     let df4 = df4\<lparr>index_name := index_name df1\<rparr>
                     in (case drop_column df4 sampled_name of
                           Inl e \<Rightarrow> Inl e
                         | Inr d \<Rightarrow> if d = df1 then Inr df4 else Inl AssertionError)))))"

text \<open>
  \<^verbatim>\<open>Series.fillna(other)\<close>: a NaN cell takes the value of \<open>other\<close> in the same row.
\<close>

definition fillna :: "cell list \<Rightarrow> cell list \<Rightarrow> cell list" where
  "fillna s other = map (\<lambda>(a, b). case a of None \<Rightarrow> b | Some v \<Rightarrow> Some v) (zip s other)"

text \<open>
  The loop of \<^verbatim>\<open>fill_nans\<close> over \<^verbatim>\<open>cols = df.columns[3:]\<close>: nothing is done
  for the first name; every later column \<open>j\<close> is filled from the column \<open>p\<close> named
  just before it, in the table as the earlier steps have left it.
\<close>

fun fill_loop :: "string list \<Rightarrow> frame \<Rightarrow> error + frame" where
  "fill_loop (p # j # rest) df =
     (case get_column df j of
        Inl e \<Rightarrow> Inl e
      | Inr cj \<Rightarrow>
          (case get_column df p of
             Inl e \<Rightarrow> Inl e
           | Inr cp \<Rightarrow> fill_loop (j # rest) (set_column df j (fillna cj cp))))"
| "fill_loop cols df = Inr df"

definition fill_nans :: "frame \<Rightarrow> error + frame" where
  "fill_nans df = fill_loop (drop 3 (column_names df)) df"

text \<open>
  The layers after the first as the loop leaves them, written by recursion over the
  columns: each column filled from the column before it as already filled.
\<close>

fun carry :: "cell list \<Rightarrow> (string \<times> cell list) list \<Rightarrow> (string \<times> cell list) list" where
  "carry prev [] = []"
| "carry prev (c # cs) = (fst c, fillna (snd c) prev) # carry (fillna (snd c) prev) cs"

text \<open>A stand-in for the grid, for the examples that have to name one.\<close>

definition flat_grid :: grid where
  "flat_grid x y = Some 7"

subsection \<open>Tables as objects\<close>

text \<open>
  A table is an object: the heap maps a reference to the table it holds now. A call
  gets a reference and returns one, with the heap after the call.
  \<^verbatim>\<open>fill_nans\<close> assigns to the columns of the table it was given and returns that
  same table; \<^verbatim>\<open>sample_grids\<close> builds its result in copies and returns a new
  table, held by the reference \<open>new\<close>. \<^verbatim>\<open>shorten\<close> writes to a copy of the
  selected rows only, so it is a function of the table it is given. A call on a
  reference that holds no table is not a call of the program (KeyError stands in for
  it).
\<close>

type_synonym ref = nat

type_synonym heap = "ref \<Rightarrow> frame option"

definition fresh :: "heap \<Rightarrow> ref \<Rightarrow> bool" where
  "fresh h a \<longleftrightarrow> h a = None"

definition fill_nans_call :: "ref \<Rightarrow> heap \<Rightarrow> (error + ref) \<times> heap" where
  "fill_nans_call a h =
     (case h a of
        None \<Rightarrow> (Inl KeyError, h)
      | Some df \<Rightarrow>
          (case fill_nans df of
             Inl e \<Rightarrow> (Inl e, h)
           | Inr df' \<Rightarrow> (Inr a, h(a \<mapsto> df'))))"

definition sample_grids_call ::
  "ref \<Rightarrow> grid \<Rightarrow> string \<Rightarrow> string \<times> string \<Rightarrow> ref \<Rightarrow> heap \<Rightarrow> (error + ref) \<times> heap" where
  "sample_grids_call a g sampled_name coord_names new h =
     (case h a of
        None \<Rightarrow> (Inl KeyError, h)
      | Some df \<Rightarrow>
          (case sample_grids df g sampled_name coord_names of
             Inl e \<Rightarrow> (Inl e, h)
           | Inr df4 \<Rightarrow> (Inr new, h(new \<mapsto> df4))))"

section \<open>Properties of profile construction\<close>

subsection \<open>linspace\<close>


lemma linspace_eq:
  assumes "0 \<le> num"
  shows "linspace a b num =
           Inr (map (\<lambda>i. a + real i * ((b - a) / real (nat num - 1))) [0..<nat num])"
proof -
  let ?n = "nat num"
  let ?y = "map (\<lambda>i. a + real i * ((b - a) / real (?n - 1))) [0..<?n]"
  have "?y[?n - 1 := b] = ?y" if "1 < ?n"
  proof -
    have "?y ! (?n - 1) = b" using that by simp
    then show ?thesis by (metis list_update_id)
  qed
  then show ?thesis using assms by (simp add: linspace_def Let_def)
qed

lemma linspace_neg: "num < 0 \<Longrightarrow> linspace a b num = Inl ValueError"
  by (simp add: linspace_def)

lemma linspace_length: "linspace a b num = Inr ys \<Longrightarrow> length ys = nat num"
  by (cases "0 \<le> num") (auto simp: linspace_eq linspace_neg)

lemma linspace_nth:
  assumes "linspace a b num = Inr ys" "i < nat num"
  shows "ys ! i = a + real i * ((b - a) / real (nat num - 1))"
proof -
  have "0 \<le> num" using assms(2) by simp
  then show ?thesis using assms by (auto simp: linspace_eq)
qed

lemma linspace_strict:
  assumes "linspace a b num = Inr ys" "a < b"
  shows "sorted_wrt (<) ys"
proof -
  have len: "length ys = nat num" using assms(1) by (rule linspace_length)
  have "ys ! i < ys ! j" if "i < j" "j < nat num" for i j
  proof -
    have n: "1 < nat num" using that by simp
    then have "0 < (b - a) / real (nat num - 1)" using assms(2) by simp
    moreover have "real i < real j" using that(1) by simp
    ultimately have "real i * ((b - a) / real (nat num - 1)) < real j * ((b - a) / real (nat num - 1))"
      by (rule mult_strict_right_mono[rotated])
    then show ?thesis using that linspace_nth[OF assms(1)] by simp
  qed
  then show ?thesis by (simp add: sorted_wrt_iff_nth_less len)
qed

lemma linspace_bounds:
  assumes "linspace a b num = Inr ys" "a \<le> b" "d \<in> set ys"
  shows "a \<le> d \<and> d \<le> b"
proof -
  have len: "length ys = nat num" using assms(1) by (rule linspace_length)
  obtain i where i: "i < nat num" "d = ys ! i" using assms(3) len by (metis in_set_conv_nth)
  let ?n = "nat num"
  have d: "d = a + real i * ((b - a) / real (?n - 1))" using linspace_nth[OF assms(1) i(1)] i(2) by simp
  show ?thesis
  proof (cases "?n = 1")
    case True
    then show ?thesis using i d assms(2) by simp
  next
    case False
    then have n: "1 < ?n" using i by simp
    have "real i \<le> real (?n - 1)" using i by simp
    then have le1: "real i / real (?n - 1) \<le> 1" using n by simp
    have ge0: "0 \<le> real i / real (?n - 1)" by simp
    have d': "d = a + (real i / real (?n - 1)) * (b - a)" using d by simp
    have "0 \<le> (real i / real (?n - 1)) * (b - a)" using ge0 assms(2) by simp
    moreover have "(real i / real (?n - 1)) * (b - a) \<le> 1 * (b - a)"
      using le1 assms(2) by (intro mult_right_mono) simp_all
    ultimately show ?thesis using d' by simp
  qed
qed

lemma linspace_hd:
  assumes "linspace a b num = Inr ys" "1 \<le> num"
  shows "hd ys = a"
proof -
  have "ys \<noteq> []" using linspace_length[OF assms(1)] assms(2) by auto
  then have "hd ys = ys ! 0" by (simp add: hd_conv_nth)
  then show ?thesis using linspace_nth[OF assms(1), of 0] assms(2) by simp
qed

lemma linspace_last:
  assumes "linspace a b num = Inr ys" "2 \<le> num"
  shows "last ys = b"
proof -
  have len: "length ys = nat num" using assms(1) by (rule linspace_length)
  then have "ys \<noteq> []" using assms(2) by auto
  then have "last ys = ys ! (nat num - 1)" by (simp add: last_conv_nth len)
  also have "\<dots> = a + real (nat num - 1) * ((b - a) / real (nat num - 1))"
    using linspace_nth[OF assms(1), of "nat num - 1"] assms(2) by simp
  also have "\<dots> = b" using assms(2) by simp
  finally show ?thesis .
qed

subsection \<open>Points between two end points\<close>

lemma sqrt_scaled: "0 \<le> c \<Longrightarrow> sqrt ((c * a)\<^sup>2 + (c * b)\<^sup>2) = c * sqrt (a\<^sup>2 + b\<^sup>2)"
proof -
  assume c: "0 \<le> c"
  have "(c * a)\<^sup>2 + (c * b)\<^sup>2 = c\<^sup>2 * (a\<^sup>2 + b\<^sup>2)" by (simp add: power_mult_distrib algebra_simps)
  then show ?thesis using c by (simp add: real_sqrt_mult)
qed

lemma points_row_dist:
  "sqrt ((a + real i * sx - a)\<^sup>2 + (b + real i * sy - b)\<^sup>2) = real i * sqrt (sx\<^sup>2 + sy\<^sup>2)"
proof -
  have "sqrt ((a + real i * sx - a)\<^sup>2 + (b + real i * sy - b)\<^sup>2)
          = sqrt ((real i * sx)\<^sup>2 + (real i * sy)\<^sup>2)"
    by (simp only: add_diff_cancel_left')
  also have "\<dots> = real i * sqrt (sx\<^sup>2 + sy\<^sup>2)" by (rule sqrt_scaled) simp
  finally show ?thesis .
qed

lemma points_mode_rows:
  assumes "1 \<le> N"
  shows "create_profile spline ''points'' (Some start) (Some stop) (Some N) shapefile polyline reverse
         = Inr (map (points_row start stop (nat N)) [0..<nat N])"
proof -
  let ?n = "nat N"
  let ?sx = "(fst stop - fst start) / real (?n - 1)"
  let ?sy = "(snd stop - snd start) / real (?n - 1)"
  let ?pts = "map (\<lambda>i. (fst start + real i * ?sx, snd start + real i * ?sy)) [0..<?n]"
  have N0: "0 \<le> N" using assms by simp
  have lp: "linspace_pts start stop N = Inr ?pts"
    by (simp add: linspace_pts_def linspace_eq[OF N0] zip_map_map zip_same_conv_map)
  have n: "?n = Suc (?n - 1)" using assms by simp
  have upt: "[0..<?n] = 0 # [1..<?n]" using assms by (simp add: upt_rec)
  define cs where "cs = map (\<lambda>i. (fst start + real i * ?sx, snd start + real i * ?sy)) [1..<?n]"
  have pts: "?pts = start # cs"
    unfolding cs_def by (subst upt) simp
  let ?rows = "map (\<lambda>c. \<lparr>col_x = fst c, col_y = snd c,
                    col_dist = sqrt ((fst c - fst start)\<^sup>2 + (snd c - snd start)\<^sup>2)\<rparr>) ?pts"
  have rows: "?rows = map (points_row start stop ?n) [0..<?n]"
    by (simp only: map_map o_def fst_conv snd_conv points_row_def[abs_def] points_row_dist)
  have srt: "sorted (map col_dist (map (points_row start stop ?n) [0..<?n]))"
    by (auto simp: sorted_iff_nth_mono points_row_def intro!: mult_right_mono)
  have sk: "sort_key col_dist (map (points_row start stop ?n) [0..<?n])
              = map (points_row start stop ?n) [0..<?n]"
    using srt by (rule sort_key_id_if_sorted)
  have xyd: "map xyd (map (points_row start stop ?n) [0..<?n]) = map (points_row start stop ?n) [0..<?n]"
    by (simp add: xyd_def points_row_def)
  have "create_profile spline ''points'' (Some start) (Some stop) (Some N) shapefile polyline reverse
        = Inr (map xyd (sort_key col_dist ?rows))"
    unfolding create_profile_def using lp pts by (simp add: Let_def)
  then show ?thesis by (simp only: rows sk xyd)
qed

subsection \<open>Relative and cumulative distance\<close>


lemma zip_butlast_Cons: "zip xs (butlast (v # xs)) = zip xs (v # xs)"
  by (induction xs arbitrary: v) simp_all

lemma segments_zip: "segments (v # rest) = map (\<lambda>(q, p). (q, euclidean p q)) (zip rest (v # rest))"
  by (induction rest arbitrary: v) simp_all

lemma lagged_rows:
  "length prev = length rest \<Longrightarrow>
   dropna (zip rest (map (\<lambda>(v, xl, yl). lag_dist v xl yl)
                 (zip rest (zip (map Some (map fst prev)) (map Some (map snd prev))))))
   = map (\<lambda>(q, p). (q, euclidean p q)) (zip rest prev)"
  by (induction prev rest rule: list_induct2) (simp_all add: dropna_def lag_dist_def euclidean_def)

lemma rel_dist_rows: "rel_dist df False = segments df"
proof (cases df)
  case Nil
  then show ?thesis by (simp add: rel_dist_def shift1_def dropna_def)
next
  case (Cons v rest)
  let ?prev = "butlast (v # rest)"
  have len: "length ?prev = length rest" by simp
  have "rel_dist (v # rest) False =
        dropna (zip rest (map (\<lambda>(v, xl, yl). lag_dist v xl yl)
                 (zip rest (zip (map Some (map fst ?prev)) (map Some (map snd ?prev))))))"
    by (simp add: rel_dist_def shift1_def Let_def map_butlast dropna_def lag_dist_def)
  also have "\<dots> = map (\<lambda>(q, p). (q, euclidean p q)) (zip rest ?prev)"
    using len by (rule lagged_rows)
  also have "\<dots> = segments (v # rest)"
    by (simp only: zip_butlast_Cons segments_zip)
  finally show ?thesis using Cons by simp
qed

lemma rel_dist_reverse: "rel_dist df True = rel_dist (rev df) False"
  by (simp add: rel_dist_def)

lemma rel_dist_segments: "rel_dist df reverse = segments (if reverse then rev df else df)"
  by (cases reverse) (simp_all add: rel_dist_reverse rel_dist_rows)

lemma length_segments: "length (segments vs) = length vs - 1"
  by (induction vs rule: segments.induct) simp_all

lemma map_fst_segments: "map fst (segments vs) = tl vs"
  by (induction vs rule: segments.induct) simp_all

lemma segments_nonneg: "(v, d) \<in> set (segments vs) \<Longrightarrow> 0 \<le> d"
  by (induction vs rule: segments.induct) (auto simp: euclidean_def)

lemma length_cumsum_from: "length (cumsum_from acc ds) = length ds"
  by (induction ds arbitrary: acc) simp_all

lemma cumsum_from_lower: "\<forall>d\<in>set ds. 0 \<le> d \<Longrightarrow> c \<in> set (cumsum_from acc ds) \<Longrightarrow> acc \<le> c"
proof (induction ds arbitrary: acc)
  case Nil
  then show ?case by simp
next
  case (Cons d ds)
  then show ?case by (fastforce)
qed

lemma cumsum_from_sorted: "\<forall>d\<in>set ds. 0 \<le> d \<Longrightarrow> sorted (cumsum_from acc ds)"
proof (induction ds arbitrary: acc)
  case Nil
  then show ?case by simp
next
  case (Cons d ds)
  then show ?case using cumsum_from_lower[of ds _ "acc + d"] by auto
qed

lemma length_rel_dist: "length (rel_dist df reverse) = length df - 1"
  by (simp add: rel_dist_segments length_segments)

lemma cum_dist_length: "length (cum_dist df reverse) = length df - 1"
  by (simp add: cum_dist_def Let_def cumsum_def length_cumsum_from length_rel_dist)

lemma rows_col_dist:
  "length xs = length ds \<Longrightarrow> map col_dist (map (\<lambda>(vr, d). path_row_of vr d) (zip xs ds)) = ds"
  by (induction xs ds rule: list_induct2) (simp_all add: path_row_of_def)

lemma rows_xy:
  "length xs = length ds \<Longrightarrow>
   map (\<lambda>r. (col_x r, col_y r)) (map (\<lambda>(vr, d). path_row_of vr d) (zip xs ds)) = map fst xs"
  by (induction xs ds rule: list_induct2) (simp_all add: path_row_of_def)

lemma cum_dist_col_dist:
  "map col_dist (cum_dist df reverse) = cumsum (map snd (rel_dist df reverse))"
  unfolding cum_dist_def Let_def
  by (rule rows_col_dist) (simp add: cumsum_def length_cumsum_from)

lemma cum_dist_xy:
  "map (\<lambda>r. (col_x r, col_y r)) (cum_dist df reverse) = tl (if reverse then rev df else df)"
proof -
  have "map (\<lambda>r. (col_x r, col_y r)) (cum_dist df reverse) = map fst (rel_dist df reverse)"
    unfolding cum_dist_def Let_def
    by (rule rows_xy) (simp add: cumsum_def length_cumsum_from)
  then show ?thesis by (simp only: rel_dist_segments map_fst_segments)
qed

lemma cum_dist_sorted: "sorted (map col_dist (cum_dist df reverse))"
  unfolding cum_dist_col_dist cumsum_def
  by (rule cumsum_from_sorted) (auto simp: rel_dist_segments dest: segments_nonneg)

lemma sort_cum_dist: "sort_key col_dist (cum_dist df reverse) = cum_dist df reverse"
  by (rule sort_key_id_if_sorted) (rule cum_dist_sorted)

subsection \<open>Claims on profile construction\<close>

lemma sqrt_25: "sqrt 25 = 5"
  by (rule real_sqrt_unique) simp_all

text \<open>
  C1. The claim: for a vertex path \<open>v[0..n-1]\<close> the column \<^verbatim>\<open>dist\<close> is the
  cumulative arc length, with \<open>dist[0] = 0\<close> and
  \<open>dist[i] = dist[i-1] + euclidean(v[i-1], v[i])\<close>; the vertices
  \<open>[(0,0), (3,4), (3,9)]\<close> yield \<^verbatim>\<open>dist\<close> 0, 5, 10. The code removes the first
  vertex together with its NaN \<^verbatim>\<open>rel_dist\<close>: on these vertices two rows are left,
  with \<^verbatim>\<open>dist\<close> 5 and 10.
\<close>

theorem create_profile_polyline_drops_first_vertex:
  "create_profile failing_spline ''polyline'' None None None None
     (Some [(0, 0), (3, 4), (3, 9)]) False
   = Inr [\<lparr>col_x = 3, col_y = 4, col_dist = 5\<rparr>, \<lparr>col_x = 3, col_y = 9, col_dist = 10\<rparr>]"
  by (simp add: create_profile_def cum_dist_def rel_dist_def shift1_def cumsum_def
      resample_or_keep_def xyd_def dropna_def lag_dist_def path_row_of_def sqrt_25)

text \<open>
  C4, as stated, promises \<open>N\<close> rows for every count \<open>N\<close>. With \<open>N = 0\<close> the table
  has no row and reading its first row raises IndexError.
\<close>

theorem create_profile_points_zero_counterexample:
  "create_profile failing_spline ''points'' (Some (0, 0)) (Some (10, 0)) (Some 0) None None False
   = Inl IndexError"
  by (simp add: create_profile_def linspace_pts_def linspace_def)

lemma points_row_from_first:
  "col_dist (points_row start stop n i)
   = euclidean (col_x (points_row start stop n 0), col_y (points_row start stop n 0))
               (col_x (points_row start stop n i), col_y (points_row start stop n i))"
proof -
  let ?sx = "(fst stop - fst start) / real (n - 1)"
  let ?sy = "(snd stop - snd start) / real (n - 1)"
  have "euclidean (fst start + real 0 * ?sx, snd start + real 0 * ?sy)
                  (fst start + real i * ?sx, snd start + real i * ?sy)
        = sqrt ((real i * ?sx)\<^sup>2 + (real i * ?sy)\<^sup>2)"
    by (simp add: euclidean_def)
  also have "\<dots> = real i * sqrt (?sx\<^sup>2 + ?sy\<^sup>2)"
    by (rule sqrt_scaled) simp
  finally show ?thesis
    by (simp only: points_row_def point.select_convs)
qed

lemma points_row_strict:
  assumes "start \<noteq> stop" "i < j" "j < n"
  shows "col_dist (points_row start stop n i) < col_dist (points_row start stop n j)"
proof -
  have n: "0 < real (n - 1)" using assms by simp
  have "fst stop - fst start \<noteq> 0 \<or> snd stop - snd start \<noteq> 0"
    using assms(1) by (auto simp: prod_eq_iff)
  then have "(fst stop - fst start) / real (n - 1) \<noteq> 0 \<or> (snd stop - snd start) / real (n - 1) \<noteq> 0"
    using n by simp
  then have "0 < ((fst stop - fst start) / real (n - 1))\<^sup>2 + ((snd stop - snd start) / real (n - 1))\<^sup>2"
    by (metis sum_power2_gt_zero_iff)
  then have "0 < sqrt (((fst stop - fst start) / real (n - 1))\<^sup>2 + ((snd stop - snd start) / real (n - 1))\<^sup>2)"
    by simp
  moreover have "real i < real j" using assms(2) by simp
  ultimately show ?thesis
    unfolding points_row_def by (simp del: real_sqrt_gt_0_iff)
qed

text \<open>
  C4, amended: for \<open>num = N\<close> with \<open>1 \<le> N\<close> the points mode returns \<open>N\<close> rows; row
  \<open>i\<close> is the point at the fraction \<open>i / (N - 1)\<close> of the way from \<open>start\<close> to
  \<open>stop\<close>; its \<^verbatim>\<open>dist\<close> is the Euclidean distance to row 0, which is 0 for row 0
  and strictly increasing along the rows when the end points differ. An omitted
  \<open>num\<close> is 1000. End points \<open>(0,0)\<close>, \<open>(10,0)\<close> with \<open>num = 3\<close> give the rows
  \<open>(0,0,0)\<close>, \<open>(5,0,5)\<close>, \<open>(10,0,10)\<close>.
\<close>

theorem create_profile_points:
  assumes "1 \<le> N"
  shows "(\<exists>out.
           create_profile spline ''points'' (Some start) (Some stop) (Some N) shapefile polyline reverse
             = Inr out
         \<and> length out = nat N
         \<and> (\<forall>i<nat N.
               col_x (out ! i) = fst start + (real i / real (nat N - 1)) * (fst stop - fst start)
             \<and> col_y (out ! i) = snd start + (real i / real (nat N - 1)) * (snd stop - snd start)
             \<and> col_dist (out ! i)
                 = euclidean (col_x (out ! 0), col_y (out ! 0)) (col_x (out ! i), col_y (out ! i)))
         \<and> col_dist (out ! 0) = 0
         \<and> (start \<noteq> stop \<longrightarrow> sorted_wrt (<) (map col_dist out)))
       \<and> create_profile spline ''points'' (Some start) (Some stop) None shapefile polyline reverse
         = create_profile spline ''points'' (Some start) (Some stop) (Some 1000) shapefile polyline reverse
       \<and> create_profile spline ''points'' (Some (0, 0)) (Some (10, 0)) (Some 3) shapefile polyline reverse
         = Inr [\<lparr>col_x = 0, col_y = 0, col_dist = 0\<rparr>, \<lparr>col_x = 5, col_y = 0, col_dist = 5\<rparr>,
                \<lparr>col_x = 10, col_y = 0, col_dist = 10\<rparr>]"
proof -
  let ?n = "nat N"
  let ?out = "map (points_row start stop ?n) [0..<?n]"
  have eq: "create_profile spline ''points'' (Some start) (Some stop) (Some N) shapefile polyline reverse
            = Inr ?out"
    using assms by (rule points_mode_rows)
  have len: "length ?out = ?n" by simp
  have rows: "col_x (?out ! i) = fst start + (real i / real (?n - 1)) * (fst stop - fst start)
            \<and> col_y (?out ! i) = snd start + (real i / real (?n - 1)) * (snd stop - snd start)
            \<and> col_dist (?out ! i)
                 = euclidean (col_x (?out ! 0), col_y (?out ! 0)) (col_x (?out ! i), col_y (?out ! i))"
    if "i < ?n" for i
  proof -
    have "?out ! i = points_row start stop ?n i" "?out ! 0 = points_row start stop ?n 0"
      using that by simp_all
    then show ?thesis
      using points_row_from_first[of start stop ?n i] by (simp add: points_row_def)
  qed
  have first: "col_dist (?out ! 0) = 0"
    using assms by (simp add: points_row_def)
  have strict: "sorted_wrt (<) (map col_dist ?out)" if "start \<noteq> stop"
    using that by (simp add: sorted_wrt_iff_nth_less points_row_strict)
  have main: "\<exists>out.
           create_profile spline ''points'' (Some start) (Some stop) (Some N) shapefile polyline reverse
             = Inr out
         \<and> length out = nat N
         \<and> (\<forall>i<nat N.
               col_x (out ! i) = fst start + (real i / real (nat N - 1)) * (fst stop - fst start)
             \<and> col_y (out ! i) = snd start + (real i / real (nat N - 1)) * (snd stop - snd start)
             \<and> col_dist (out ! i)
                 = euclidean (col_x (out ! 0), col_y (out ! 0)) (col_x (out ! i), col_y (out ! i)))
         \<and> col_dist (out ! 0) = 0
         \<and> (start \<noteq> stop \<longrightarrow> sorted_wrt (<) (map col_dist out))"
    using eq len rows first strict by blast
  have dflt: "create_profile spline ''points'' (Some start) (Some stop) None shapefile polyline reverse
         = create_profile spline ''points'' (Some start) (Some stop) (Some 1000) shapefile polyline reverse"
    by (simp add: create_profile_def)
  have ex: "create_profile spline ''points'' (Some (0, 0)) (Some (10, 0)) (Some 3) shapefile polyline reverse
         = Inr [\<lparr>col_x = 0, col_y = 0, col_dist = 0\<rparr>, \<lparr>col_x = 5, col_y = 0, col_dist = 5\<rparr>,
                \<lparr>col_x = 10, col_y = 0, col_dist = 10\<rparr>]"
    by (simp add: create_profile_def linspace_pts_def linspace_def xyd_def Let_def upt_rec numeral_3_eq_3)
  from main dflt ex show ?thesis by (intro conjI)
qed

theorem create_profile_points_witness:
  "(1::int) \<le> 3
   \<and> (\<exists>out. create_profile failing_spline ''points'' (Some (0, 0)) (Some (10, 0)) (Some 3) None None False
               = Inr out
           \<and> length out = 3 \<and> (1::nat) < nat 3
           \<and> col_x (out ! 1) = 5 \<and> col_y (out ! 1) = 0
           \<and> col_dist (out ! 1) = euclidean (col_x (out ! 0), col_y (out ! 0)) (col_x (out ! 1), col_y (out ! 1))
           \<and> col_dist (out ! 0) = 0
           \<and> (0, 0) \<noteq> (10 :: real, 0 :: real) \<and> sorted_wrt (<) (map col_dist out))"
proof -
  have h: "(1::int) \<le> 3" by simp
  obtain out where out:
    "create_profile failing_spline ''points'' (Some (0, 0)) (Some (10, 0)) (Some 3) None None False = Inr out"
    "length out = nat 3"
    "\<forall>i<nat 3.
               col_x (out ! i) = fst (0::real, 0::real) + (real i / real (nat 3 - 1)) * (fst (10::real, 0::real) - fst (0::real, 0::real))
             \<and> col_y (out ! i) = snd (0::real, 0::real) + (real i / real (nat 3 - 1)) * (snd (10::real, 0::real) - snd (0::real, 0::real))
             \<and> col_dist (out ! i)
                 = euclidean (col_x (out ! 0), col_y (out ! 0)) (col_x (out ! i), col_y (out ! i))"
    "col_dist (out ! 0) = 0"
    "(0::real, 0::real) \<noteq> (10, 0) \<longrightarrow> sorted_wrt (<) (map col_dist out)"
    using create_profile_points[OF h, of failing_spline "(0, 0)" "(10, 0)" None None False] by blast
  have one: "(1::nat) < nat 3" by simp
  from out(3) one have
    "col_x (out ! 1) = fst (0::real, 0::real) + (real 1 / real (nat 3 - 1)) * (fst (10::real, 0::real) - fst (0::real, 0::real))
      \<and> col_y (out ! 1) = snd (0::real, 0::real) + (real 1 / real (nat 3 - 1)) * (snd (10::real, 0::real) - snd (0::real, 0::real))
      \<and> col_dist (out ! 1)
                 = euclidean (col_x (out ! 0), col_y (out ! 0)) (col_x (out ! 1), col_y (out ! 1))"
    by blast
  then have r1: "col_x (out ! 1) = 5" "col_y (out ! 1) = 0"
    "col_dist (out ! 1) = euclidean (col_x (out ! 0), col_y (out ! 0)) (col_x (out ! 1), col_y (out ! 1))"
    by simp_all
  have ne: "(0::real, 0::real) \<noteq> (10, 0)" by simp
  with out(5) have "sorted_wrt (<) (map col_dist out)" by blast
  with out r1 ne h one show ?thesis by auto
qed

section \<open>Properties of shorten\<close>

lemma shorten_selected:
  "shorten df max_dist min_dist =
     (case filter (\<lambda>r. less_nan (col_dist r) (upper_bound df max_dist)
                      \<and> greater_nan (col_dist r) (lower_bound df min_dist)) df of
        [] \<Rightarrow> Inl IndexError
      | r0 # rs \<Rightarrow>
          Inr (map (\<lambda>r. r\<lparr>col_dist := euclidean (col_x r0, col_y r0) (col_x r, col_y r)\<rparr>) (r0 # rs)))"
  by (simp add: shorten_def Let_def euclidean_def split: list.splits)

lemma shorten_supplied:
  assumes "filter (\<lambda>r. mn < col_dist r \<and> col_dist r < mx) df = r0 # rs"
  shows "shorten df (Some mx) (Some mn) =
           Inr (map (\<lambda>r. r\<lparr>col_dist := euclidean (col_x r0, col_y r0) (col_x r, col_y r)\<rparr>) (r0 # rs))"
proof -
  have sel: "filter (\<lambda>r. less_nan (col_dist r) (upper_bound df (Some mx))
                        \<and> greater_nan (col_dist r) (lower_bound df (Some mn))) df = r0 # rs"
    using assms
    by (simp add: less_nan_def greater_nan_def upper_bound_def lower_bound_def conj_commute)
  show ?thesis unfolding shorten_selected sel by simp
qed

lemma euclidean_self: "euclidean p p = 0"
  by (simp add: euclidean_def)

text \<open>
  C10. When no row lies strictly between the bounds (the bounds as supplied, or the
  minimum and maximum of \<^verbatim>\<open>dist\<close> for an omitted one), \<^verbatim>\<open>shorten\<close> returns
  no table: reading the first row of the empty selection raises IndexError.
\<close>

theorem shorten_empty_selection:
  assumes "\<not> (\<exists>r\<in>set df. greater_nan (col_dist r) (lower_bound df min_dist)
                         \<and> less_nan (col_dist r) (upper_bound df max_dist))"
  shows "shorten df max_dist min_dist = Inl IndexError"
proof -
  have "filter (\<lambda>r. less_nan (col_dist r) (upper_bound df max_dist)
                      \<and> greater_nan (col_dist r) (lower_bound df min_dist)) df = []"
    using assms by (auto simp: filter_empty_conv)
  then show ?thesis by (simp add: shorten_selected)
qed

theorem shorten_empty_selection_witness:
  "\<not> (\<exists>r\<in>set [\<lparr>col_x = 0, col_y = 0, col_dist = 0\<rparr>, \<lparr>col_x = 5, col_y = 0, col_dist = 5\<rparr>].
         greater_nan (col_dist r)
           (lower_bound [\<lparr>col_x = 0, col_y = 0, col_dist = 0\<rparr>, \<lparr>col_x = 5, col_y = 0, col_dist = 5\<rparr>] (Some 1))
       \<and> less_nan (col_dist r)
           (upper_bound [\<lparr>col_x = 0, col_y = 0, col_dist = 0\<rparr>, \<lparr>col_x = 5, col_y = 0, col_dist = 5\<rparr>] (Some 4)))
   \<and> shorten [\<lparr>col_x = 0, col_y = 0, col_dist = 0\<rparr>, \<lparr>col_x = 5, col_y = 0, col_dist = 5\<rparr>] (Some 4) (Some 1)
       = Inl IndexError"
proof -
  have h: "\<not> (\<exists>r\<in>set [\<lparr>col_x = 0, col_y = 0, col_dist = 0\<rparr>, \<lparr>col_x = 5, col_y = 0, col_dist = 5\<rparr>].
         greater_nan (col_dist r)
           (lower_bound [\<lparr>col_x = 0, col_y = 0, col_dist = 0\<rparr>, \<lparr>col_x = 5, col_y = 0, col_dist = 5\<rparr>] (Some 1))
       \<and> less_nan (col_dist r)
           (upper_bound [\<lparr>col_x = 0, col_y = 0, col_dist = 0\<rparr>, \<lparr>col_x = 5, col_y = 0, col_dist = 5\<rparr>] (Some 4)))"
    by (simp add: greater_nan_def less_nan_def lower_bound_def upper_bound_def)
  show ?thesis using h shorten_empty_selection[OF h] by blast
qed

text \<open>
  C3, as stated, covers every pair of bounds. For bounds with no row strictly between
  them nothing is returned: on the rows with \<^verbatim>\<open>dist\<close> 0, 5, 10 and the bounds
  \<open>2 < dist < 3\<close> the call raises IndexError.
\<close>

theorem shorten_no_rows_counterexample:
  "shorten [\<lparr>col_x = 0, col_y = 0, col_dist = 0\<rparr>, \<lparr>col_x = 5, col_y = 0, col_dist = 5\<rparr>,
            \<lparr>col_x = 10, col_y = 0, col_dist = 10\<rparr>] (Some 3) (Some 2)
   = Inl IndexError"
  by (simp add: shorten_def upper_bound_def lower_bound_def less_nan_def greater_nan_def)

text \<open>
  C3, amended: for supplied bounds with at least one row strictly between them,
  \<^verbatim>\<open>shorten\<close> returns exactly the rows with \<open>min_dist < dist < max_dist\<close>, in
  their order and unchanged in every column but \<^verbatim>\<open>dist\<close>; the new \<^verbatim>\<open>dist\<close> of
  a row is its Euclidean distance to the first returned row, so it is 0 in that row.
\<close>

theorem shorten_rows:
  assumes "\<exists>r\<in>set df. mn < col_dist r \<and> col_dist r < mx"
  shows "\<exists>out. shorten df (Some mx) (Some mn) = Inr out
           \<and> map (\<lambda>r. r\<lparr>col_dist := 0\<rparr>) out
               = map (\<lambda>r. r\<lparr>col_dist := 0\<rparr>) (filter (\<lambda>r. mn < col_dist r \<and> col_dist r < mx) df)
           \<and> (\<forall>r\<in>set out.
                 col_dist r = euclidean (col_x (hd out), col_y (hd out)) (col_x r, col_y r))
           \<and> out \<noteq> [] \<and> col_dist (hd out) = 0"
proof -
  let ?sel = "filter (\<lambda>r. mn < col_dist r \<and> col_dist r < mx) df"
  have "?sel \<noteq> []" using assms by (auto simp: filter_empty_conv)
  then obtain r0 rs where sel: "?sel = r0 # rs" by (cases ?sel) auto
  let ?out = "map (\<lambda>r. r\<lparr>col_dist := euclidean (col_x r0, col_y r0) (col_x r, col_y r)\<rparr>) (r0 # rs)"
  have eq: "shorten df (Some mx) (Some mn) = Inr ?out" using sel by (rule shorten_supplied)
  have rows: "map (\<lambda>r. r\<lparr>col_dist := 0\<rparr>) ?out = map (\<lambda>r. r\<lparr>col_dist := 0\<rparr>) ?sel"
    unfolding sel by simp
  have hd: "col_x (hd ?out) = col_x r0" "col_y (hd ?out) = col_y r0" by simp_all
  have dists: "\<forall>r\<in>set ?out. col_dist r = euclidean (col_x (hd ?out), col_y (hd ?out)) (col_x r, col_y r)"
    unfolding hd by auto
  have first: "?out \<noteq> []" "col_dist (hd ?out) = 0" by (simp_all add: euclidean_self)
  show ?thesis using eq rows dists first by blast
qed

theorem shorten_rows_witness:
  "(\<exists>r\<in>set [\<lparr>col_x = 0, col_y = 0, col_dist = 0\<rparr>, \<lparr>col_x = 3, col_y = 4, col_dist = 5\<rparr>,
              \<lparr>col_x = 3, col_y = 9, col_dist = 10\<rparr>, \<lparr>col_x = 3, col_y = 12, col_dist = 13\<rparr>].
      4 < col_dist r \<and> col_dist r < 11)
   \<and> (\<exists>out. shorten [\<lparr>col_x = 0, col_y = 0, col_dist = 0\<rparr>, \<lparr>col_x = 3, col_y = 4, col_dist = 5\<rparr>,
              \<lparr>col_x = 3, col_y = 9, col_dist = 10\<rparr>, \<lparr>col_x = 3, col_y = 12, col_dist = 13\<rparr>]
              (Some 11) (Some 4) = Inr out
         \<and> map (\<lambda>r. r\<lparr>col_dist := 0\<rparr>) out
             = [\<lparr>col_x = 3, col_y = 4, col_dist = 0\<rparr>, \<lparr>col_x = 3, col_y = 9, col_dist = 0\<rparr>]
         \<and> (\<forall>r\<in>set out.
                 col_dist r = euclidean (col_x (hd out), col_y (hd out)) (col_x r, col_y r))
         \<and> col_dist (hd out) = 0)"
proof -
  let ?df = "[\<lparr>col_x = 0, col_y = 0, col_dist = 0\<rparr>, \<lparr>col_x = 3, col_y = 4, col_dist = 5\<rparr>,
              \<lparr>col_x = 3, col_y = 9, col_dist = 10\<rparr>, \<lparr>col_x = 3, col_y = 12, col_dist = 13\<rparr>]"
  have h: "\<exists>r\<in>set ?df. 4 < col_dist r \<and> col_dist r < 11" by simp
  obtain out where out:
    "shorten ?df (Some 11) (Some 4) = Inr out"
    "map (\<lambda>r. r\<lparr>col_dist := 0\<rparr>) out
       = map (\<lambda>r. r\<lparr>col_dist := 0\<rparr>) (filter (\<lambda>r. 4 < col_dist r \<and> col_dist r < 11) ?df)"
    "\<forall>r\<in>set out. col_dist r = euclidean (col_x (hd out), col_y (hd out)) (col_x r, col_y r)"
    "col_dist (hd out) = 0"
    using shorten_rows[OF h] by blast
  have "map (\<lambda>r. r\<lparr>col_dist := 0\<rparr>) out
          = [\<lparr>col_x = 3, col_y = 4, col_dist = 0\<rparr>, \<lparr>col_x = 3, col_y = 9, col_dist = 0\<rparr>]"
    using out(2) by simp
  with h out(1,3,4) show ?thesis by - (intro conjI exI[of _ out]; assumption)
qed

text \<open>
  Without bounds, \<^verbatim>\<open>shorten\<close> on a table with rows takes the maximum and the
  minimum of \<^verbatim>\<open>dist\<close> as its bounds.
\<close>

lemma shorten_default_bounds:
  assumes "df \<noteq> []"
  shows "shorten df None None
           = shorten df (Some (Max (col_dist ` set df))) (Some (Min (col_dist ` set df)))"
proof -
  have "upper_bound df None = upper_bound df (Some (Max (col_dist ` set df)))"
       "lower_bound df None = lower_bound df (Some (Min (col_dist ` set df)))"
    using assms by (simp_all add: upper_bound_def lower_bound_def series_max_def series_min_def)
  then show ?thesis unfolding shorten_selected by simp
qed

text \<open>
  C2. The claim: \<^verbatim>\<open>shorten\<close> without \<open>max_dist\<close> and \<open>min_dist\<close> is a no-op; the
  bounds default to the minimum and maximum \<^verbatim>\<open>dist\<close> of the table and the table
  returned equals the input, with the same rows and the same \<^verbatim>\<open>dist\<close> values. The
  code compares strictly: on the rows \<open>(0,0,0)\<close>, \<open>(5,0,5)\<close>, \<open>(10,0,10)\<close> the bounds
  become 10 and 0, the rows at both bounds are removed, and the one row left gets the
  distance 0.
\<close>

theorem shorten_defaults_drop_bound_rows:
  "shorten [\<lparr>col_x = 0, col_y = 0, col_dist = 0\<rparr>, \<lparr>col_x = 5, col_y = 0, col_dist = 5\<rparr>,
            \<lparr>col_x = 10, col_y = 0, col_dist = 10\<rparr>] None None
   = Inr [\<lparr>col_x = 5, col_y = 0, col_dist = 0\<rparr>]"
  by (simp add: shorten_def upper_bound_def lower_bound_def less_nan_def greater_nan_def
      series_max_def series_min_def)

section \<open>Properties of resampling\<close>

lemma collect_length: "collect rs = Inr vs \<Longrightarrow> length vs = length rs"
proof (induction rs arbitrary: vs)
  case Nil
  then show ?case by simp
next
  case (Cons r rs)
  then show ?case by (cases r) (auto split: sum.splits)
qed

lemma known_length:
  "length idx = length col \<Longrightarrow>
   length [(t, v). (t, Some v) \<leftarrow> zip idx col] = length (filter (\<lambda>c. c \<noteq> None) col)"
proof (induction idx col rule: list_induct2)
  case Nil
  then show ?case by simp
next
  case (Cons t idx c col)
  then show ?case by (cases c) simp_all
qed

lemma interpolate_column_length:
  assumes "interpolate_column spline idx col = Inr vs" "length idx = length col"
  shows "length vs = length col"
proof -
  let ?known = "[(t, v). (t, Some v) \<leftarrow> zip idx col]"
  show ?thesis
  proof (cases "length ?known = length col")
    case True
    then show ?thesis using assms(1) by (auto simp: interpolate_column_def Let_def)
  next
    case False
    then have "collect (map (\<lambda>(t, c). case c of Some v \<Rightarrow> Inr v | None \<Rightarrow> spline ?known t)
                           (zip idx col)) = Inr vs"
      using assms(1) by (auto simp: interpolate_column_def Let_def split: if_splits)
    then show ?thesis using assms(2) by (auto dest: collect_length)
  qed
qed

lemma interpolate_column_too_few:
  assumes "length idx = length col"
      and "length (filter (\<lambda>c. c \<noteq> None) col) < length col"
      and "length (filter (\<lambda>c. c \<noteq> None) col) < 4"
  shows "interpolate_column spline idx col = Inl ValueError"
  using assms by (simp add: interpolate_column_def Let_def known_length)

lemma set_index_union: "set (index_union a b) = set a \<union> set b"
  by (induction a b rule: index_union.induct) auto

lemma sorted_index_union: "sorted a \<Longrightarrow> sorted b \<Longrightarrow> sorted (index_union a b)"
  by (induction a b rule: index_union.induct) (auto simp: set_index_union)

lemma strict_index_union:
  "sorted_wrt (<) a \<Longrightarrow> sorted_wrt (<) b \<Longrightarrow> sorted_wrt (<) (index_union a b)"
  by (induction a b rule: index_union.induct) (auto simp: set_index_union)

lemma find_own_label:
  "distinct (map f xs) \<Longrightarrow> map (\<lambda>d. find (\<lambda>r. f r = d) xs) (map f xs) = map Some xs"
proof (induction xs)
  case Nil
  then show ?case by simp
next
  case (Cons x xs)
  have "find (\<lambda>r. f r = f y) (x # xs) = find (\<lambda>r. f r = f y) xs" if "y \<in> set xs" for y
    using that Cons.prems by auto
  then have "map (\<lambda>d. find (\<lambda>r. f r = d) (x # xs)) (map f xs)
               = map (\<lambda>d. find (\<lambda>r. f r = d) xs) (map f xs)"
    by simp
  then show ?case using Cons by simp
qed

lemma reindex_distinct:
  assumes "distinct (map col_dist df)"
  shows "reindex df labels = Inr (map (\<lambda>d. find (\<lambda>r. col_dist r = d) df) labels)"
proof (cases "labels = map col_dist df")
  case True
  then show ?thesis using find_own_label[OF assms, symmetric] by (simp add: reindex_def)
next
  case False
  then show ?thesis using assms by (simp add: reindex_def)
qed

lemma reindex_length: "reindex df labels = Inr t \<Longrightarrow> length t = length labels"
  by (auto simp: reindex_def split: if_splits)

lemma known_cells:
  "filter (\<lambda>c. c \<noteq> None) (map (map_option f) (map (\<lambda>d. find (\<lambda>r. col_dist r = d) df) labels))
   = map (map_option f) (map (\<lambda>d. find (\<lambda>r. col_dist r = d) df) (filter (\<lambda>d. d \<in> col_dist ` set df) labels))"
proof (induction labels)
  case Nil
  then show ?case by simp
next
  case (Cons d labels)
  have "find (\<lambda>r. col_dist r = d) df = None \<longleftrightarrow> d \<notin> col_dist ` set df"
    by (auto simp: find_None_iff)
  then show ?case using Cons by auto
qed

lemma length_known_labels:
  assumes "distinct (map col_dist df)" "distinct labels" "col_dist ` set df \<subseteq> set labels"
  shows "length (filter (\<lambda>d. d \<in> col_dist ` set df) labels) = length df"
proof -
  let ?L = "map col_dist df"
  let ?f = "filter (\<lambda>d. d \<in> col_dist ` set df) labels"
  have "distinct ?f" using assms(2) by simp
  moreover have "set ?f = set ?L" using assms(3) by auto
  ultimately have "length ?f = card (set ?L)" by (metis distinct_card)
  also have "\<dots> = length ?L" using assms(1) by (rule distinct_card)
  finally show ?thesis by simp
qed

lemma length_more_labels:
  assumes "distinct (map col_dist df)" "distinct labels" "col_dist ` set df \<subseteq> set labels"
      and "d \<in> set labels" "d \<notin> col_dist ` set df"
  shows "length df < length labels"
proof -
  let ?L = "map col_dist df"
  have "set ?L \<subset> set labels" using assms(3,4,5) by auto
  then have "card (set ?L) < card (set labels)" by (intro psubset_card_mono) simp_all
  moreover have "card (set ?L) = length df" using assms(1) by (metis distinct_card length_map)
  moreover have "card (set labels) = length labels" using assms(2) by (rule distinct_card)
  ultimately show ?thesis by simp
qed

lemma dist_min_le_max: "coords \<noteq> [] \<Longrightarrow> dist_min coords \<le> dist_max coords"
  by (simp add: dist_min_def dist_max_def)

lemma dist_min_in: "coords \<noteq> [] \<Longrightarrow> dist_min coords \<in> col_dist ` set coords"
  unfolding dist_min_def using Min_in[of "set (map col_dist coords)"] by simp

text \<open>Fewer than 4 rows and a label to fill: the table is not resampled.\<close>

lemma resample_too_few:
  assumes ne: "coords \<noteq> []"
      and few: "length coords < 4"
      and srt: "sorted_wrt (<) (map col_dist coords)"
      and lin: "linspace (dist_min coords) (dist_max coords) num = Inr lin"
      and new: "d \<in> set lin" "d \<notin> col_dist ` set coords"
  shows "resample spline coords num = Inl ValueError"
proof -
  let ?labels = "index_union (map col_dist coords) lin"
  let ?df = "map (\<lambda>d. find (\<lambda>r. col_dist r = d) coords) ?labels"
  let ?col = "map (map_option col_x) ?df"
  have dis: "distinct (map col_dist coords)" using srt by (simp add: strict_sorted_iff)
  have "dist_min coords \<noteq> dist_max coords"
  proof
    assume "dist_min coords = dist_max coords"
    then have "d = dist_min coords" using linspace_bounds[OF lin _ new(1)] by simp
    then show False using new(2) dist_min_in[OF ne] by simp
  qed
  then have "dist_min coords < dist_max coords" using dist_min_le_max[OF ne] by simp
  then have "sorted_wrt (<) lin" using lin by (rule linspace_strict[rotated])
  then have "sorted_wrt (<) ?labels" using srt by (intro strict_index_union)
  then have dl: "distinct ?labels" by (simp add: strict_sorted_iff)
  have sub: "col_dist ` set coords \<subseteq> set ?labels" by (auto simp: set_index_union)
  have din: "d \<in> set ?labels" using new(1) by (simp add: set_index_union)
  have re: "reindex coords ?labels = Inr ?df" using dis by (rule reindex_distinct)
  have k: "length (filter (\<lambda>c. c \<noteq> None) ?col) = length coords"
    unfolding known_cells by (simp add: length_known_labels[OF dis dl sub])
  have l: "length coords < length ?col"
    using length_more_labels[OF dis dl sub din new(2)] by simp
  have "interpolate_column spline ?labels ?col = Inl ValueError"
    by (rule interpolate_column_too_few) (use k l few in simp_all)
  then show ?thesis using ne lin re by (simp add: resample_def Let_def)
qed

lemma dist_min_less_max:
  assumes "distinct (map col_dist coords)" "2 \<le> length coords"
  shows "dist_min coords < dist_max coords"
proof -
  let ?S = "set (map col_dist coords)"
  have fin: "finite ?S" by simp
  have c: "card ?S = length coords" using assms(1) by (metis distinct_card length_map)
  have ne: "?S \<noteq> {}" using assms(2) by auto
  have "Min ?S \<noteq> Max ?S"
  proof
    assume eq: "Min ?S = Max ?S"
    have "?S \<subseteq> {Min ?S}"
    proof
      fix x assume x: "x \<in> ?S"
      then have "Min ?S \<le> x" "x \<le> Max ?S" using fin by simp_all
      then show "x \<in> {Min ?S}" using eq by simp
    qed
    then have "card ?S \<le> card {Min ?S}" by (intro card_mono) simp_all
    then show False using c assms(2) by simp
  qed
  moreover have "Min ?S \<le> Max ?S" using fin ne by simp
  ultimately show ?thesis by (simp add: dist_min_def dist_max_def)
qed

lemma resample_col_dist:
  assumes ne: "coords \<noteq> []"
      and ok: "resample spline coords num = Inr df2"
  shows "\<exists>lin. linspace (dist_min coords) (dist_max coords) num = Inr lin
             \<and> map col_dist df2 = filter (\<lambda>d. d \<in> set lin) (index_union (map col_dist coords) lin)"
proof -
  obtain lin where lin: "linspace (dist_min coords) (dist_max coords) num = Inr lin"
    using ne ok by (auto simp: resample_def split: sum.splits)
  let ?labels = "index_union (map col_dist coords) lin"
  obtain df where re: "reindex coords ?labels = Inr df"
    using ne ok lin by (auto simp: resample_def Let_def split: sum.splits)
  then have df: "length df = length ?labels"
    by (rule reindex_length)
  obtain xs ys rs where
    xs: "interpolate_column spline ?labels (map (map_option col_x) df) = Inr xs" and
    ys: "interpolate_column spline ?labels (map (map_option col_y) df) = Inr ys" and
    rs: "interpolate_column spline ?labels (map (map_option col_rel_dist) df) = Inr rs" and
    df2: "df2 = filter (\<lambda>r. col_dist r \<in> set lin)
                 (map (\<lambda>(d, x, y, r). \<lparr>col_x = x, col_y = y, col_dist = d, col_rel_dist = r\<rparr>)
                      (zip ?labels (zip xs (zip ys rs))))"
    using ne ok lin re by (auto simp: resample_def Let_def split: sum.splits)
  have len: "length xs = length ?labels" "length ys = length ?labels" "length rs = length ?labels"
    using interpolate_column_length[OF xs] interpolate_column_length[OF ys]
      interpolate_column_length[OF rs] df by simp_all
  define df1 where "df1 = map (\<lambda>(d, x, y, r). \<lparr>col_x = x, col_y = y, col_dist = d, col_rel_dist = r\<rparr>)
                      (zip ?labels (zip xs (zip ys rs)))"
  have "map col_dist df1 = map fst (zip ?labels (zip xs (zip ys rs)))"
    unfolding df1_def by (simp add: case_prod_unfold)
  also have "\<dots> = ?labels" using len by simp
  finally have labels: "map col_dist df1 = ?labels" .
  have "map col_dist (filter (\<lambda>r. col_dist r \<in> set lin) df1)
          = filter (\<lambda>d. d \<in> set lin) (map col_dist df1)"
    by (simp add: filter_map o_def)
  then have "map col_dist df2 = filter (\<lambda>d. d \<in> set lin) ?labels"
    using df2 labels by (simp add: df1_def)
  then show ?thesis using lin by blast
qed

lemma filter_union_strict:
  assumes "sorted_wrt (<) L" "sorted_wrt (<) lin"
  shows "filter (\<lambda>d. d \<in> set lin) (index_union L lin) = lin"
proof -
  let ?f = "filter (\<lambda>d. d \<in> set lin) (index_union L lin)"
  have "sorted_wrt (<) (index_union L lin)" using assms by (rule strict_index_union)
  then have "sorted (index_union L lin)" "distinct (index_union L lin)"
    by (simp_all add: strict_sorted_iff)
  then have "sorted ?f" "distinct ?f" by (simp_all add: sorted_wrt_filter)
  moreover have "set ?f = set lin" by (auto simp: set_index_union)
  moreover have "sorted lin" "distinct lin" using assms(2) by (simp_all add: strict_sorted_iff)
  ultimately show ?thesis by (metis sorted_distinct_set_unique)
qed

subsection \<open>Claims on resampling\<close>

lemma create_profile_path:
  assumes "method = ''polyline'' \<and> polyline = Some vs \<or> method = ''shapefile'' \<and> shapefile = Some vs"
  shows "create_profile spline method start stop num shapefile polyline reverse =
           (case resample_or_keep spline (cum_dist vs reverse) num of
              Inl e \<Rightarrow> Inl e
            | Inr df2 \<Rightarrow> Inr (map xyd df2))"
  using assms by (auto simp: create_profile_def Let_def sort_cum_dist)

lemma create_profile_unsampled:
  assumes "method = ''polyline'' \<and> polyline = Some vs \<or> method = ''shapefile'' \<and> shapefile = Some vs"
  shows "create_profile spline method start stop None shapefile polyline reverse
           = Inr (map xyd (cum_dist vs reverse))"
  by (simp add: create_profile_path[OF assms] resample_or_keep_def)

text \<open>An exception of the resampling that is not a ValueError is not caught.\<close>

lemma create_profile_other_error:
  assumes "method = ''polyline'' \<and> polyline = Some vs \<or> method = ''shapefile'' \<and> shapefile = Some vs"
      and "resample spline (cum_dist vs reverse) M = Inl e" "e \<noteq> ValueError"
  shows "create_profile spline method start stop (Some M) shapefile polyline reverse = Inl e"
  using assms(2,3) by (cases e) (simp_all add: create_profile_path[OF assms(1)] resample_or_keep_def)

text \<open>
  The profile of a vertex path that is not resampled: the vertices but the first (of the
  reversed list when \<open>reverse\<close> is set), each with the length of the path from the
  first vertex to it.
\<close>

lemma create_profile_path_rows:
  assumes "method = ''polyline'' \<and> polyline = Some vs \<or> method = ''shapefile'' \<and> shapefile = Some vs"
  shows "\<exists>out. create_profile spline method start stop None shapefile polyline reverse = Inr out
           \<and> map (\<lambda>r. (col_x r, col_y r)) out = tl (if reverse then rev vs else vs)
           \<and> map col_dist out = cumsum (map snd (segments (if reverse then rev vs else vs)))"
proof -
  let ?out = "map xyd (cum_dist vs reverse)"
  have "map (\<lambda>r. (col_x r, col_y r)) ?out = map (\<lambda>r. (col_x r, col_y r)) (cum_dist vs reverse)"
    by (simp add: xyd_def)
  then have xy: "map (\<lambda>r. (col_x r, col_y r)) ?out = tl (if reverse then rev vs else vs)"
    by (simp only: cum_dist_xy)
  have "map col_dist ?out = map col_dist (cum_dist vs reverse)"
    by (simp add: xyd_def)
  then have d: "map col_dist ?out = cumsum (map snd (segments (if reverse then rev vs else vs)))"
    by (simp only: cum_dist_col_dist rel_dist_segments)
  show ?thesis using create_profile_unsampled[OF assms] xy d by blast
qed

text \<open>
  C5, as stated, fails in two ways. With \<open>num = 1\<close> on five vertices in a line the
  resampling succeeds and gives the single row at the smallest \<^verbatim>\<open>dist\<close>, 1, while the
  largest \<^verbatim>\<open>dist\<close> of the path is 4. With a vertex repeated, two rows have the same
  \<^verbatim>\<open>dist\<close>: for \<open>num = 2\<close> the resampling succeeds and gives three rows.
\<close>

theorem resample_rows_counterexample:
  "resample failing_spline (cum_dist [(0, 0), (1, 0), (2, 0), (3, 0), (4, 0)] False) 1
     = Inr [\<lparr>col_x = 1, col_y = 0, col_dist = 1, col_rel_dist = 1\<rparr>]
   \<and> create_profile failing_spline ''polyline'' None None (Some 1) None
        (Some [(0, 0), (1, 0), (2, 0), (3, 0), (4, 0)]) False
     = Inr [\<lparr>col_x = 1, col_y = 0, col_dist = 1\<rparr>]
   \<and> dist_max (cum_dist [(0, 0), (1, 0), (2, 0), (3, 0), (4, 0)] False) = 4
   \<and> resample failing_spline (cum_dist [(0, 0), (3, 4), (3, 4), (3, 9)] False) 2
     = Inr [\<lparr>col_x = 3, col_y = 4, col_dist = 5, col_rel_dist = 5\<rparr>,
            \<lparr>col_x = 3, col_y = 4, col_dist = 5, col_rel_dist = 0\<rparr>,
            \<lparr>col_x = 3, col_y = 9, col_dist = 10, col_rel_dist = 5\<rparr>]
   \<and> create_profile failing_spline ''polyline'' None None (Some 2) None
        (Some [(0, 0), (3, 4), (3, 4), (3, 9)]) False
     = Inr [\<lparr>col_x = 3, col_y = 4, col_dist = 5\<rparr>, \<lparr>col_x = 3, col_y = 4, col_dist = 5\<rparr>,
            \<lparr>col_x = 3, col_y = 9, col_dist = 10\<rparr>]"
proof -
  have c1: "cum_dist [(0, 0), (1, 0), (2, 0), (3, 0), (4, 0)] False
            = [\<lparr>col_x = 1, col_y = 0, col_dist = 1, col_rel_dist = 1\<rparr>,
               \<lparr>col_x = 2, col_y = 0, col_dist = 2, col_rel_dist = 1\<rparr>,
               \<lparr>col_x = 3, col_y = 0, col_dist = 3, col_rel_dist = 1\<rparr>,
               \<lparr>col_x = 4, col_y = 0, col_dist = 4, col_rel_dist = 1\<rparr>]"
    by (simp add: cum_dist_def rel_dist_def shift1_def cumsum_def dropna_def lag_dist_def
        path_row_of_def)
  have c2: "cum_dist [(0, 0), (3, 4), (3, 4), (3, 9)] False
            = [\<lparr>col_x = 3, col_y = 4, col_dist = 5, col_rel_dist = 5\<rparr>,
               \<lparr>col_x = 3, col_y = 4, col_dist = 5, col_rel_dist = 0\<rparr>,
               \<lparr>col_x = 3, col_y = 9, col_dist = 10, col_rel_dist = 5\<rparr>]"
    by (simp add: cum_dist_def rel_dist_def shift1_def cumsum_def dropna_def lag_dist_def
        path_row_of_def sqrt_25)
  have r1: "resample failing_spline (cum_dist [(0, 0), (1, 0), (2, 0), (3, 0), (4, 0)] False) 1
     = Inr [\<lparr>col_x = 1, col_y = 0, col_dist = 1, col_rel_dist = 1\<rparr>]"
    unfolding c1
    by (simp add: resample_def linspace_def dist_min_def dist_max_def reindex_def
        interpolate_column_def)
  have r2: "resample failing_spline (cum_dist [(0, 0), (3, 4), (3, 4), (3, 9)] False) 2
     = Inr [\<lparr>col_x = 3, col_y = 4, col_dist = 5, col_rel_dist = 5\<rparr>,
            \<lparr>col_x = 3, col_y = 4, col_dist = 5, col_rel_dist = 0\<rparr>,
            \<lparr>col_x = 3, col_y = 9, col_dist = 10, col_rel_dist = 5\<rparr>]"
    unfolding c2
    by (simp add: resample_def linspace_def dist_min_def dist_max_def reindex_def
        interpolate_column_def Let_def upt_rec numeral_2_eq_2)
  have p1: "create_profile failing_spline ''polyline'' None None (Some 1) None
        (Some [(0, 0), (1, 0), (2, 0), (3, 0), (4, 0)]) False
     = Inr [\<lparr>col_x = 1, col_y = 0, col_dist = 1\<rparr>]"
    by (simp add: create_profile_path resample_or_keep_def r1 xyd_def)
  have p2: "create_profile failing_spline ''polyline'' None None (Some 2) None
        (Some [(0, 0), (3, 4), (3, 4), (3, 9)]) False
     = Inr [\<lparr>col_x = 3, col_y = 4, col_dist = 5\<rparr>, \<lparr>col_x = 3, col_y = 4, col_dist = 5\<rparr>,
            \<lparr>col_x = 3, col_y = 9, col_dist = 10\<rparr>]"
    by (simp add: create_profile_path resample_or_keep_def r2 xyd_def)
  have m: "dist_max (cum_dist [(0, 0), (1, 0), (2, 0), (3, 0), (4, 0)] False) = 4"
    unfolding c1 by (simp add: dist_max_def)
  from r1 p1 m r2 p2 show ?thesis by (intro conjI)
qed

text \<open>
  C5, amended: for a vertex path of at least 4 vertices whose rows all have different
  \<^verbatim>\<open>dist\<close>, and a count \<open>num = M\<close>: when the resampling succeeds, the profile has
  exactly \<open>M\<close> rows, none of them with a \<^verbatim>\<open>dist\<close> outside the smallest and largest
  \<^verbatim>\<open>dist\<close> of the path that was not resampled, and for \<open>2 \<le> M\<close> the first row is
  at the smallest and the last row at the largest \<^verbatim>\<open>dist\<close>.
\<close>

theorem create_profile_resampled:
  assumes src: "method = ''polyline'' \<and> polyline = Some vs \<or> method = ''shapefile'' \<and> shapefile = Some vs"
      and n4: "4 \<le> length vs"
      and dis: "distinct (map col_dist (cum_dist vs reverse))"
      and ok: "resample spline (cum_dist vs reverse) M = Inr df2"
  shows "\<exists>out. create_profile spline method start stop (Some M) shapefile polyline reverse = Inr out
           \<and> 0 \<le> M \<and> length out = nat M
           \<and> (\<forall>r\<in>set out. dist_min (cum_dist vs reverse) \<le> col_dist r
                          \<and> col_dist r \<le> dist_max (cum_dist vs reverse))
           \<and> (2 \<le> M \<longrightarrow> col_dist (hd out) = dist_min (cum_dist vs reverse)
                        \<and> col_dist (last out) = dist_max (cum_dist vs reverse))"
proof -
  let ?coords = "cum_dist vs reverse"
  have len: "3 \<le> length ?coords" using n4 by (simp add: cum_dist_length)
  then have ne: "?coords \<noteq> []" by auto
  obtain lin where lin: "linspace (dist_min ?coords) (dist_max ?coords) M = Inr lin"
    and d2: "map col_dist df2 = filter (\<lambda>d. d \<in> set lin) (index_union (map col_dist ?coords) lin)"
    using resample_col_dist[OF ne ok] by blast
  have M0: "0 \<le> M" using lin by (auto simp: linspace_def split: if_splits)
  have lt: "dist_min ?coords < dist_max ?coords"
    using dis len by (intro dist_min_less_max) simp_all
  have sl: "sorted_wrt (<) lin" using lin lt by (rule linspace_strict)
  have sc: "sorted_wrt (<) (map col_dist ?coords)"
    using dis cum_dist_sorted[of vs reverse] by (simp add: strict_sorted_iff)
  have dists: "map col_dist df2 = lin" unfolding d2 using sc sl by (rule filter_union_strict)
  let ?out = "map xyd df2"
  have out_d: "map col_dist ?out = lin" using dists by (simp add: xyd_def o_def)
  have eq: "create_profile spline method start stop (Some M) shapefile polyline reverse = Inr ?out"
    by (simp add: create_profile_path[OF src] resample_or_keep_def ok)
  have n: "length ?out = nat M"
    using out_d linspace_length[OF lin] by (metis length_map)
  have inside: "\<forall>r\<in>set ?out. dist_min ?coords \<le> col_dist r \<and> col_dist r \<le> dist_max ?coords"
  proof
    fix r assume "r \<in> set ?out"
    then have "col_dist r \<in> set (map col_dist ?out)" by (simp only: set_map) (rule imageI)
    then have "col_dist r \<in> set lin" by (simp only: out_d)
    then show "dist_min ?coords \<le> col_dist r \<and> col_dist r \<le> dist_max ?coords"
      using linspace_bounds[OF lin] lt by simp
  qed
  have ends: "col_dist (hd ?out) = dist_min ?coords \<and> col_dist (last ?out) = dist_max ?coords"
    if "2 \<le> M"
  proof -
    have one: "1 \<le> M" using that by simp
    have "?out \<noteq> []" using n that by auto
    then have "col_dist (hd ?out) = hd (map col_dist ?out)"
      "col_dist (last ?out) = last (map col_dist ?out)"
      by (simp_all add: hd_map last_map)
    then show ?thesis
      using linspace_hd[OF lin one] linspace_last[OF lin that] by (simp only: out_d)
  qed
  from eq M0 n inside ends show ?thesis by blast
qed

theorem create_profile_resampled_witness:
  "4 \<le> length [(0::real, 0::real), (1, 0), (2, 0), (3, 0), (4, 0)]
   \<and> distinct (map col_dist (cum_dist [(0, 0), (1, 0), (2, 0), (3, 0), (4, 0)] False))
   \<and> resample zero_spline (cum_dist [(0, 0), (1, 0), (2, 0), (3, 0), (4, 0)] False) 3
       = Inr [\<lparr>col_x = 1, col_y = 0, col_dist = 1, col_rel_dist = 1\<rparr>,
              \<lparr>col_x = 0, col_y = 0, col_dist = 5 / 2, col_rel_dist = 0\<rparr>,
              \<lparr>col_x = 4, col_y = 0, col_dist = 4, col_rel_dist = 1\<rparr>]
   \<and> (\<exists>out. create_profile zero_spline ''polyline'' None None (Some 3) None
               (Some [(0, 0), (1, 0), (2, 0), (3, 0), (4, 0)]) False = Inr out
           \<and> length out = 3
           \<and> (\<forall>r\<in>set out. 1 \<le> col_dist r \<and> col_dist r \<le> 4)
           \<and> col_dist (hd out) = 1 \<and> col_dist (last out) = 4)"
proof -
  let ?vs = "[(0::real, 0::real), (1, 0), (2, 0), (3, 0), (4, 0)]"
  have c: "cum_dist ?vs False
            = [\<lparr>col_x = 1, col_y = 0, col_dist = 1, col_rel_dist = 1\<rparr>,
               \<lparr>col_x = 2, col_y = 0, col_dist = 2, col_rel_dist = 1\<rparr>,
               \<lparr>col_x = 3, col_y = 0, col_dist = 3, col_rel_dist = 1\<rparr>,
               \<lparr>col_x = 4, col_y = 0, col_dist = 4, col_rel_dist = 1\<rparr>]"
    by (simp add: cum_dist_def rel_dist_def shift1_def cumsum_def dropna_def lag_dist_def
        path_row_of_def)
  have src: "''polyline'' = ''polyline'' \<and> Some ?vs = Some ?vs
             \<or> ''polyline'' = ''shapefile'' \<and> None = Some ?vs"
    by simp
  have n4: "4 \<le> length ?vs" by simp
  have dis: "distinct (map col_dist (cum_dist ?vs False))" unfolding c by simp
  have mm: "dist_min (cum_dist ?vs False) = 1" "dist_max (cum_dist ?vs False) = 4"
    unfolding c by (simp_all add: dist_min_def dist_max_def)
  have ok: "resample zero_spline (cum_dist ?vs False) 3
       = Inr [\<lparr>col_x = 1, col_y = 0, col_dist = 1, col_rel_dist = 1\<rparr>,
              \<lparr>col_x = 0, col_y = 0, col_dist = 5 / 2, col_rel_dist = 0\<rparr>,
              \<lparr>col_x = 4, col_y = 0, col_dist = 4, col_rel_dist = 1\<rparr>]"
    unfolding c
    by (simp add: resample_def linspace_def dist_min_def dist_max_def reindex_def
        interpolate_column_def zero_spline_def Let_def upt_rec numeral_3_eq_3)
  obtain out where out:
    "create_profile zero_spline ''polyline'' None None (Some 3) None (Some ?vs) False = Inr out"
    "length out = nat 3"
    "\<forall>r\<in>set out. dist_min (cum_dist ?vs False) \<le> col_dist r
                 \<and> col_dist r \<le> dist_max (cum_dist ?vs False)"
    "(2::int) \<le> 3 \<longrightarrow> col_dist (hd out) = dist_min (cum_dist ?vs False)
                        \<and> col_dist (last out) = dist_max (cum_dist ?vs False)"
    using create_profile_resampled[OF src n4 dis ok, of None None] by blast
  have a: "length out = 3" using out(2) by simp
  have b: "\<forall>r\<in>set out. 1 \<le> col_dist r \<and> col_dist r \<le> 4" using out(3) unfolding mm .
  have e: "col_dist (hd out) = 1" "col_dist (last out) = 4" using out(4) unfolding mm by simp_all
  from n4 dis ok out(1) a b e show ?thesis by - (intro conjI exI[of _ out]; assumption)
qed

text \<open>
  C6, as stated, promises the rows that were not resampled whenever the path has fewer
  than 4 points. Three vertices leave two rows, with \<^verbatim>\<open>dist\<close> 5 and 10; for
  \<open>num = 1\<close> the one resampled distance is the \<^verbatim>\<open>dist\<close> of the first row, nothing
  is interpolated, no exception is raised, and the profile is that one row.
\<close>

theorem create_profile_fallback_counterexample:
  "create_profile failing_spline ''polyline'' None None (Some 1) None
     (Some [(0, 0), (3, 4), (3, 9)]) False
   = Inr [\<lparr>col_x = 3, col_y = 4, col_dist = 5\<rparr>]"
  by (simp add: create_profile_def cum_dist_def rel_dist_def shift1_def cumsum_def
      resample_or_keep_def xyd_def dropna_def lag_dist_def path_row_of_def sqrt_25
      resample_def linspace_def dist_min_def dist_max_def reindex_def
      interpolate_column_def)

text \<open>
  C6, amended: whenever the resampling of a vertex path raises ValueError,
  \<^verbatim>\<open>create_profile\<close> does not fail and returns the rows that were not resampled,
  as the call without \<open>num\<close> does. The resampling raises ValueError in particular when
  the path has 1 to 3 rows, all with different \<^verbatim>\<open>dist\<close>, and one of the resampled
  distances is not the \<^verbatim>\<open>dist\<close> of a row.
\<close>

theorem create_profile_fallback:
  assumes src: "method = ''polyline'' \<and> polyline = Some vs \<or> method = ''shapefile'' \<and> shapefile = Some vs"
      and err: "resample spline (cum_dist vs reverse) M = Inl ValueError
                \<or> (cum_dist vs reverse \<noteq> [] \<and> length (cum_dist vs reverse) < 4
                    \<and> distinct (map col_dist (cum_dist vs reverse))
                    \<and> (\<exists>lin d. linspace (dist_min (cum_dist vs reverse))
                                        (dist_max (cum_dist vs reverse)) M = Inr lin
                               \<and> d \<in> set lin \<and> d \<notin> col_dist ` set (cum_dist vs reverse)))"
  shows "create_profile spline method start stop (Some M) shapefile polyline reverse
           = Inr (map xyd (cum_dist vs reverse))
         \<and> create_profile spline method start stop (Some M) shapefile polyline reverse
           = create_profile spline method start stop None shapefile polyline reverse"
proof -
  let ?coords = "cum_dist vs reverse"
  have ve: "resample spline ?coords M = Inl ValueError"
  proof (rule disjE[OF err])
    assume "resample spline ?coords M = Inl ValueError"
    then show ?thesis .
  next
    assume a: "?coords \<noteq> [] \<and> length ?coords < 4 \<and> distinct (map col_dist ?coords)
               \<and> (\<exists>lin d. linspace (dist_min ?coords) (dist_max ?coords) M = Inr lin
                          \<and> d \<in> set lin \<and> d \<notin> col_dist ` set ?coords)"
    then obtain lin d where lin: "linspace (dist_min ?coords) (dist_max ?coords) M = Inr lin"
      and d: "d \<in> set lin" "d \<notin> col_dist ` set ?coords"
      by blast
    have sc: "sorted_wrt (<) (map col_dist ?coords)"
      using a cum_dist_sorted[of vs reverse] by (simp add: strict_sorted_iff)
    show ?thesis using a sc lin d by (intro resample_too_few) simp_all
  qed
  have "create_profile spline method start stop (Some M) shapefile polyline reverse
          = Inr (map xyd ?coords)"
    by (simp add: create_profile_path[OF src] resample_or_keep_def ve)
  then show ?thesis by (simp add: create_profile_unsampled[OF src])
qed

theorem create_profile_fallback_witness:
  "(resample failing_spline (cum_dist [(0, 0), (3, 4), (3, 9)] False) 3 = Inl ValueError
    \<or> (cum_dist [(0, 0), (3, 4), (3, 9)] False \<noteq> []
        \<and> length (cum_dist [(0, 0), (3, 4), (3, 9)] False) < 4
        \<and> distinct (map col_dist (cum_dist [(0, 0), (3, 4), (3, 9)] False))
        \<and> (\<exists>lin d. linspace (dist_min (cum_dist [(0, 0), (3, 4), (3, 9)] False))
                            (dist_max (cum_dist [(0, 0), (3, 4), (3, 9)] False)) 3 = Inr lin
                   \<and> d \<in> set lin \<and> d \<notin> col_dist ` set (cum_dist [(0, 0), (3, 4), (3, 9)] False))))
   \<and> create_profile failing_spline ''polyline'' None None (Some 3) None
        (Some [(0, 0), (3, 4), (3, 9)]) False
       = Inr [\<lparr>col_x = 3, col_y = 4, col_dist = 5\<rparr>, \<lparr>col_x = 3, col_y = 9, col_dist = 10\<rparr>]"
proof -
  let ?vs = "[(0::real, 0::real), (3, 4), (3, 9)]"
  have c: "cum_dist ?vs False
            = [\<lparr>col_x = 3, col_y = 4, col_dist = 5, col_rel_dist = 5\<rparr>,
               \<lparr>col_x = 3, col_y = 9, col_dist = 10, col_rel_dist = 5\<rparr>]"
    by (simp add: cum_dist_def rel_dist_def shift1_def cumsum_def dropna_def lag_dist_def
        path_row_of_def sqrt_25)
  have src: "''polyline'' = ''polyline'' \<and> Some ?vs = Some ?vs
             \<or> ''polyline'' = ''shapefile'' \<and> None = Some ?vs"
    by simp
  have lin: "linspace (dist_min (cum_dist ?vs False)) (dist_max (cum_dist ?vs False)) 3
               = Inr [5, 15 / 2, 10]"
    unfolding c by (simp add: linspace_def dist_min_def dist_max_def Let_def upt_rec numeral_3_eq_3)
  have "(15 / 2 :: real) \<in> set [5, 15 / 2, 10]
        \<and> (15 / 2 :: real) \<notin> col_dist ` set (cum_dist ?vs False)"
    unfolding c by simp
  with lin have new: "\<exists>lin d. linspace (dist_min (cum_dist ?vs False)) (dist_max (cum_dist ?vs False)) 3
                               = Inr lin
                          \<and> d \<in> set lin \<and> d \<notin> col_dist ` set (cum_dist ?vs False)"
    by blast
  have rest: "cum_dist ?vs False \<noteq> []" "length (cum_dist ?vs False) < 4"
    "distinct (map col_dist (cum_dist ?vs False))"
    unfolding c by simp_all
  have err: "resample failing_spline (cum_dist ?vs False) 3 = Inl ValueError
    \<or> (cum_dist ?vs False \<noteq> [] \<and> length (cum_dist ?vs False) < 4
        \<and> distinct (map col_dist (cum_dist ?vs False))
        \<and> (\<exists>lin d. linspace (dist_min (cum_dist ?vs False)) (dist_max (cum_dist ?vs False)) 3 = Inr lin
                   \<and> d \<in> set lin \<and> d \<notin> col_dist ` set (cum_dist ?vs False)))"
    using rest new by blast
  have "create_profile failing_spline ''polyline'' None None (Some 3) None (Some ?vs) False
          = Inr (map xyd (cum_dist ?vs False))"
    using create_profile_fallback[OF src err, of None None] by blast
  then have "create_profile failing_spline ''polyline'' None None (Some 3) None (Some ?vs) False
       = Inr [\<lparr>col_x = 3, col_y = 4, col_dist = 5\<rparr>, \<lparr>col_x = 3, col_y = 9, col_dist = 10\<rparr>]"
    unfolding c by (simp add: xyd_def)
  with err show ?thesis by (intro conjI)
qed

section \<open>Properties of fill\_nans\<close>

lemma map_of_middle:
  "j \<notin> fst ` set pre \<Longrightarrow> map_of (pre @ (j, c) # post) j = Some c"
  by (induction pre) auto

lemma replace_middle:
  assumes "j \<notin> fst ` set pre" "j \<notin> fst ` set post"
  shows "map (\<lambda>c. if fst c = j then (j, v) else c) (pre @ (j, c0) # post) = pre @ (j, v) # post"
proof -
  have "map (\<lambda>c. if fst c = j then (j, v) else c) xs = xs" if "j \<notin> fst ` set xs" for xs
    using that by (induction xs) auto
  then show ?thesis using assms by simp
qed

lemma fill_loop_carry:
  assumes "columns df = pre @ (p, cp) # rest" "distinct (map fst (columns df))"
  shows "fill_loop (p # map fst rest) df = Inr (df\<lparr>columns := pre @ (p, cp) # carry cp rest\<rparr>)"
  using assms
proof (induction rest arbitrary: pre p cp df)
  case Nil
  then show ?case by simp
next
  case (Cons c rest)
  obtain j cj where c: "c = (j, cj)" by (cases c)
  let ?pre = "pre @ [(p, cp)]"
  let ?v = "fillna cj cp"
  let ?df = "df\<lparr>columns := ?pre @ (j, ?v) # rest\<rparr>"
  have cols: "columns df = ?pre @ (j, cj) # rest" using Cons.prems(1) c by simp
  have nj: "j \<notin> fst ` set ?pre" "j \<notin> fst ` set rest"
    using Cons.prems(2) unfolding cols by auto
  have np: "p \<notin> fst ` set pre" using Cons.prems by auto
  have "map_of (columns df) j = Some cj"
    unfolding cols using nj(1) by (rule map_of_middle)
  then have gj: "get_column df j = Inr cj" by (simp add: get_column_def)
  have "map_of (columns df) p = Some cp"
    unfolding Cons.prems(1) using np by (rule map_of_middle)
  then have gp: "get_column df p = Inr cp" by (simp add: get_column_def)
  have "j \<in> set (column_names df)" unfolding column_names_def cols by simp
  then have sc: "set_column df j ?v = ?df"
    unfolding set_column_def cols using replace_middle[OF nj] by (simp add: cols)
  have "fill_loop (j # map fst rest) ?df = Inr (?df\<lparr>columns := ?pre @ (j, ?v) # carry ?v rest\<rparr>)"
  proof (rule Cons.IH)
    show "columns ?df = ?pre @ (j, ?v) # rest" by simp
    show "distinct (map fst (columns ?df))" using Cons.prems(2) unfolding cols by simp
  qed
  then show ?case using gj gp sc c by simp
qed

lemma length_fillna: "length (fillna a b) = min (length a) (length b)"
  by (simp add: fillna_def)

lemma fillna_nth:
  "r < length a \<Longrightarrow> r < length b \<Longrightarrow>
   fillna a b ! r = (case a ! r of None \<Rightarrow> b ! r | Some v \<Rightarrow> Some v)"
  by (simp add: fillna_def)

lemma carry_names: "map fst (carry prev cs) = map fst cs"
  by (induction cs arbitrary: prev) simp_all

lemma carry_length: "length (carry prev cs) = length cs"
  by (induction cs arbitrary: prev) simp_all

lemma carry_rows:
  "length prev = n \<Longrightarrow> list_all (\<lambda>c. length (snd c) = n) cs \<Longrightarrow>
   list_all (\<lambda>c. length (snd c) = n) (carry prev cs)"
  by (induction cs arbitrary: prev) (simp_all add: length_fillna)

lemma carry_nth:
  "i < length cs \<Longrightarrow>
   snd (carry prev cs ! i)
     = fillna (snd (cs ! i)) (if i = 0 then prev else snd (carry prev cs ! (i - 1)))"
proof (induction cs arbitrary: prev i)
  case Nil
  then show ?case by simp
next
  case (Cons c cs)
  show ?case
  proof (cases i)
    case 0
    then show ?thesis by simp
  next
    case (Suc k)
    then have k: "k < length cs" using Cons.prems by simp
    show ?thesis
    proof (cases k)
      case 0
      then show ?thesis using Suc k Cons.IH[OF k, of "fillna (snd c) prev"] by simp
    next
      case (Suc m)
      then show ?thesis using \<open>i = Suc k\<close> k Cons.IH[OF k, of "fillna (snd c) prev"] by simp
    qed
  qed
qed

text \<open>The table that \<^verbatim>\<open>fill_nans\<close> returns.\<close>

lemma fill_nans_result:
  assumes "distinct (column_names df)"
  shows "fill_nans df =
           Inr (df\<lparr>columns := take 3 (columns df) @
                     (case drop 3 (columns df) of [] \<Rightarrow> [] | l1 # ls \<Rightarrow> l1 # carry (snd l1) ls)\<rparr>)"
proof (cases "drop 3 (columns df)")
  case Nil
  then have "take 3 (columns df) = columns df" by simp
  moreover have "drop 3 (column_names df) = []" using Nil by (simp add: column_names_def drop_map)
  ultimately show ?thesis using Nil by (simp add: fill_nans_def)
next
  case (Cons l1 ls)
  obtain p cp where l1: "l1 = (p, cp)" by (cases l1)
  have cols: "columns df = take 3 (columns df) @ (p, cp) # ls"
    using Cons l1 by (metis append_take_drop_id)
  have names: "drop 3 (column_names df) = p # map fst ls"
    using Cons l1 by (simp add: column_names_def drop_map)
  have "fill_loop (p # map fst ls) df
          = Inr (df\<lparr>columns := take 3 (columns df) @ (p, cp) # carry cp ls\<rparr>)"
    using cols assms by (intro fill_loop_carry) (simp_all add: column_names_def)
  then show ?thesis using Cons l1 names by (simp add: fill_nans_def)
qed

text \<open>
  C8. In a well-formed table, \<^verbatim>\<open>fill_nans\<close> leaves the index, the names of the
  columns, the first three columns and the first layer (the 4th column) as they are.
  In every later column a NaN cell gets the value that the column before it has in the
  same row after that column was filled itself, so values carry forward from left to
  right; every other cell keeps its value.
\<close>

theorem fill_nans_carries_forward:
  assumes "wf_frame df"
  shows "\<exists>out. fill_nans df = Inr out
           \<and> index_name out = index_name df \<and> index_labels out = index_labels df
           \<and> column_names out = column_names df
           \<and> take 4 (columns out) = take 4 (columns df)
           \<and> (\<forall>i r. 4 \<le> i \<and> i < length (columns df) \<and> r < length (index_labels df) \<longrightarrow>
                  snd (columns out ! i) ! r
                    = (case snd (columns df ! i) ! r of
                         None \<Rightarrow> snd (columns out ! (i - 1)) ! r
                       | Some v \<Rightarrow> Some v))"
proof -
  let ?n = "length (index_labels df)"
  have dist: "distinct (column_names df)"
    and rect: "list_all (\<lambda>c. length (snd c) = ?n) (columns df)"
    using assms by (simp_all add: wf_frame_def)
  let ?cols = "take 3 (columns df) @
                 (case drop 3 (columns df) of [] \<Rightarrow> [] | l1 # ls \<Rightarrow> l1 # carry (snd l1) ls)"
  let ?out = "df\<lparr>columns := ?cols\<rparr>"
  have res: "fill_nans df = Inr ?out" using dist by (rule fill_nans_result)
  have idx: "index_name ?out = index_name df" "index_labels ?out = index_labels df" by simp_all
  show ?thesis
  proof (cases "drop 3 (columns df)")
    case Nil
    then have "?out = df" by simp
    then have "fill_nans df = Inr df" using res by simp
    moreover have "length (columns df) \<le> 3" using Nil by simp
    ultimately show ?thesis by (intro exI[of _ df]) auto
  next
    case (Cons l1 ls)
    define pre where "pre = take 3 (columns df)"
    have cols: "columns df = pre @ l1 # ls"
      unfolding pre_def using Cons by (metis append_take_drop_id)
    have lp: "length pre = 3"
      unfolding pre_def using Cons by (cases "length (columns df) \<le> 3") auto
    have oc: "columns ?out = pre @ l1 # carry (snd l1) ls" using Cons by (simp add: pre_def)
    have names: "column_names ?out = column_names df"
      unfolding column_names_def oc by (subst cols) (simp add: carry_names)
    have first: "take 4 (columns ?out) = take 4 (columns df)"
      unfolding oc by (subst cols) (simp add: lp)
    have rl: "length (snd l1) = ?n" "list_all (\<lambda>c. length (snd c) = ?n) ls"
      using rect by (subst (asm) cols, simp)+
    have rc: "list_all (\<lambda>c. length (snd c) = ?n) (carry (snd l1) ls)"
      using rl by (intro carry_rows)
    have cell: "snd (columns ?out ! i) ! r
                  = (case snd (columns df ! i) ! r of
                       None \<Rightarrow> snd (columns ?out ! (i - 1)) ! r
                     | Some v \<Rightarrow> Some v)"
      if i: "4 \<le> i" "i < length (columns df)" and r: "r < ?n" for i r
    proof -
      define k where "k = i - 4"
      have ik: "i = k + 4" using i by (simp add: k_def)
      have len: "length (columns df) = 4 + length ls" by (subst cols) (simp add: lp)
      then have k: "k < length ls" using i ik by simp
      have a: "columns ?out ! i = carry (snd l1) ls ! k"
        unfolding oc ik by (simp add: nth_append lp)
      have b: "columns df ! i = ls ! k"
        by (subst cols) (simp add: nth_append lp ik)
      have c: "snd (columns ?out ! (i - 1))
                 = (if k = 0 then snd l1 else snd (carry (snd l1) ls ! (k - 1)))"
        unfolding oc ik by (cases k) (simp_all add: nth_append lp)
      have l1: "length (snd (ls ! k)) = ?n" using rl(2) k by (simp add: list_all_length)
      have l2: "length (snd (columns ?out ! (i - 1))) = ?n"
        unfolding c using rl(1) rc k by (cases k) (auto simp: list_all_length carry_length)
      have "snd (columns ?out ! i) = fillna (snd (columns df ! i)) (snd (columns ?out ! (i - 1)))"
        unfolding a b c using carry_nth[OF k] by simp
      then show ?thesis using fillna_nth[of r "snd (columns df ! i)" "snd (columns ?out ! (i - 1))"]
          l1 l2 r b by simp
    qed
    show ?thesis using res idx names first cell by (intro exI[of _ ?out]) blast
  qed
qed

theorem fill_nans_carries_forward_witness:
  "wf_frame \<lparr>index_name = None, index_labels = [Some 0, Some 1],
             columns = [(''x'', [Some 0, Some 5]), (''y'', [Some 0, Some 0]),
                        (''dist'', [Some 0, Some 5]), (''surface'', [Some 100, None]),
                        (''icebase'', [None, None]), (''bed'', [None, Some (-50)])]\<rparr>
   \<and> (\<exists>out. fill_nans \<lparr>index_name = None, index_labels = [Some 0, Some 1],
             columns = [(''x'', [Some 0, Some 5]), (''y'', [Some 0, Some 0]),
                        (''dist'', [Some 0, Some 5]), (''surface'', [Some 100, None]),
                        (''icebase'', [None, None]), (''bed'', [None, Some (-50)])]\<rparr> = Inr out
          \<and> columns out ! 3 = (''surface'', [Some 100, None])
          \<and> snd (columns out ! 4) ! 0 = Some 100
          \<and> snd (columns out ! 5) ! 0 = Some 100
          \<and> snd (columns out ! 5) ! 1 = Some (-50))"
proof -
  let ?df = "\<lparr>index_name = None, index_labels = [Some 0, Some 1],
             columns = [(''x'', [Some 0, Some 5]), (''y'', [Some 0, Some 0]),
                        (''dist'', [Some 0, Some 5]), (''surface'', [Some 100, None]),
                        (''icebase'', [None, None]), (''bed'', [None, Some (-50)])]\<rparr>"
  have wf: "wf_frame ?df" by (simp add: wf_frame_def column_names_def)
  obtain out where out: "fill_nans ?df = Inr out"
    and first: "take 4 (columns out) = take 4 (columns ?df)"
    and cell: "\<forall>i r. 4 \<le> i \<and> i < length (columns ?df) \<and> r < length (index_labels ?df) \<longrightarrow>
                  snd (columns out ! i) ! r
                    = (case snd (columns ?df ! i) ! r of
                         None \<Rightarrow> snd (columns out ! (i - 1)) ! r
                       | Some v \<Rightarrow> Some v)"
    using fill_nans_carries_forward[OF wf] by blast
  have "take 4 (columns out) ! 3 = take 4 (columns ?df) ! 3" using first by simp
  then have c3: "columns out ! 3 = (''surface'', [Some 100, None])" by simp
  have "(4::nat) \<le> 4 \<and> 4 < length (columns ?df) \<and> 0 < length (index_labels ?df)" by simp
  then have "snd (columns out ! 4) ! 0
               = (case snd (columns ?df ! 4) ! 0 of
                    None \<Rightarrow> snd (columns out ! (4 - 1)) ! 0
                  | Some v \<Rightarrow> Some v)"
    using cell by blast
  then have c4: "snd (columns out ! 4) ! 0 = Some 100" using c3 by simp
  have "(4::nat) \<le> 5 \<and> 5 < length (columns ?df) \<and> 0 < length (index_labels ?df)" by simp
  then have "snd (columns out ! 5) ! 0
               = (case snd (columns ?df ! 5) ! 0 of
                    None \<Rightarrow> snd (columns out ! (5 - 1)) ! 0
                  | Some v \<Rightarrow> Some v)"
    using cell by blast
  then have c5: "snd (columns out ! 5) ! 0 = Some 100" using c4 by simp
  have "(4::nat) \<le> 5 \<and> 5 < length (columns ?df) \<and> 1 < length (index_labels ?df)" by simp
  then have "snd (columns out ! 5) ! 1
               = (case snd (columns ?df ! 5) ! 1 of
                    None \<Rightarrow> snd (columns out ! (5 - 1)) ! 1
                  | Some v \<Rightarrow> Some v)"
    using cell by blast
  then have c6: "snd (columns out ! 5) ! 1 = Some (-50)" by simp
  from wf out c3 c4 c5 c6 show ?thesis by - (intro conjI exI[of _ out]; assumption)
qed

section \<open>Properties of sample\_grids\<close>

lemma map_of_filter_other:
  "k \<noteq> name \<Longrightarrow> map_of (filter (\<lambda>c. fst c \<noteq> name) cols) k = map_of cols k"
  by (induction cols) auto

lemma filter_no_name: "name \<notin> fst ` set cols \<Longrightarrow> filter (\<lambda>c. fst c \<noteq> name) cols = cols"
  by (induction cols) auto

lemma map_of_length:
  "list_all (\<lambda>c. length (snd c) = n) cols \<Longrightarrow> map_of cols k = Some c \<Longrightarrow> length c = n"
  by (induction cols) (auto split: if_splits)

text \<open>
  The table that \<^verbatim>\<open>sample_grids\<close> returns on a table whose index has no name or
  the name \<^verbatim>\<open>index\<close>, which has no column \<^verbatim>\<open>index\<close> and has both coordinate
  columns, for a target name that is neither \<^verbatim>\<open>index\<close> nor a coordinate column.
\<close>

lemma sample_grids_result:
  assumes idx: "index_name df = None \<or> index_name df = Some ''index''"
      and ni: "''index'' \<notin> set (column_names df)"
      and nm: "name \<noteq> ''index''" "name \<noteq> cx" "name \<noteq> cy"
      and xs: "map_of (columns df) cx = Some xs"
      and ys: "map_of (columns df) cy = Some ys"
  shows "sample_grids df g name (cx, cy)
           = Inr (df\<lparr>columns := filter (\<lambda>c. fst c \<noteq> name) (columns df) @ [(name, grdtrack g xs ys)]\<rparr>)"
proof -
  let ?cols1 = "filter (\<lambda>c. fst c \<noteq> name) (columns df)"
  let ?df1 = "df\<lparr>columns := ?cols1\<rparr>"
  let ?s = "grdtrack g xs ys"
  have df1: "(case drop_column df name of Inl e \<Rightarrow> df | Inr d \<Rightarrow> d) = ?df1"
  proof (cases "name \<in> set (column_names df)")
    case True
    then show ?thesis by (simp add: drop_column_def)
  next
    case False
    then have "?cols1 = columns df" by (intro filter_no_name) (simp add: column_names_def)
    then show ?thesis using False by (simp add: drop_column_def)
  qed
  have n1: "''index'' \<notin> set (column_names ?df1)" "name \<notin> set (column_names ?df1)"
    using ni by (auto simp: column_names_def)
  let ?df3 = "\<lparr>index_name = None,
               index_labels = map (\<lambda>i. Some (real i)) [0..<length (index_labels df)],
               columns = (''index'', index_labels df) # ?cols1\<rparr>"
  have r: "reset_index ?df1 = Inr ?df3"
    using idx n1(1) by (auto simp: reset_index_def)
  have cxi: "cx \<noteq> ''index''" "cy \<noteq> ''index''"
    using xs ys ni by (force simp: column_names_def dest!: map_of_SomeD)+
  have gx: "get_column ?df3 cx = Inr xs"
    using xs cxi(1) nm(2) by (simp add: get_column_def map_of_filter_other)
  have gy: "get_column ?df3 cy = Inr ys"
    using ys cxi(2) nm(3) by (simp add: get_column_def map_of_filter_other)
  let ?df3' = "?df3\<lparr>columns := (''index'', index_labels df) # ?cols1 @ [(name, ?s)]\<rparr>"
  have sc: "set_column ?df3 name ?s = ?df3'"
    using nm(1) n1(2) by (simp add: set_column_def column_names_def)
  let ?df4 = "\<lparr>index_name = Some ''index'', index_labels = index_labels df,
               columns = ?cols1 @ [(name, ?s)]\<rparr>"
  have fi: "filter (\<lambda>c. fst c \<noteq> ''index'') ?cols1 = ?cols1"
    using n1(1) by (intro filter_no_name) (simp add: column_names_def)
  have si: "set_index ?df3' ''index'' = Inr ?df4"
    using nm(1) fi by (simp add: set_index_def)
  let ?out = "df\<lparr>columns := ?cols1 @ [(name, ?s)]\<rparr>"
  have nameback: "?df4\<lparr>index_name := index_name ?df1\<rparr> = ?out" by simp
  have dc: "drop_column ?out name = Inr ?df1"
    by (simp add: drop_column_def column_names_def)
  show ?thesis
    unfolding sample_grids_def df1 Let_def
    by (simp only: r gx gy sc si nameback dc sum.case fst_conv snd_conv refl if_True)
qed

text \<open>
  C7, as stated, covers every table and every column name. The call fails when the
  target name is a coordinate column (the column is dropped before the coordinates are
  read: KeyError), when the index has a name other than \<^verbatim>\<open>index\<close> (there is no
  column \<^verbatim>\<open>index\<close> to restore the index from: KeyError), when the table has a
  column \<^verbatim>\<open>index\<close> of its own (that column becomes the index, and the final
  comparison with the input raises AssertionError), when the target name is
  \<^verbatim>\<open>index\<close> (the sampled values become the index and no column is left to drop:
  KeyError), and when a coordinate column is missing (KeyError).
\<close>

theorem sample_grids_counterexample:
  "sample_grids \<lparr>index_name = None, index_labels = [Some 0, Some 1],
                 columns = [(''x'', [Some 0, Some 5]), (''y'', [Some 0, Some 0]),
                            (''dist'', [Some 0, Some 5])]\<rparr>
                flat_grid ''x'' (''x'', ''y'') = Inl KeyError
   \<and> sample_grids \<lparr>index_name = Some ''station'', index_labels = [Some 0, Some 1],
                 columns = [(''x'', [Some 0, Some 5]), (''y'', [Some 0, Some 0]),
                            (''dist'', [Some 0, Some 5])]\<rparr>
                flat_grid ''surface'' (''x'', ''y'') = Inl KeyError
   \<and> sample_grids \<lparr>index_name = None, index_labels = [Some 0, Some 1],
                 columns = [(''x'', [Some 0, Some 5]), (''y'', [Some 0, Some 0]),
                            (''index'', [Some 3, Some 4])]\<rparr>
                flat_grid ''surface'' (''x'', ''y'') = Inl AssertionError
   \<and> sample_grids \<lparr>index_name = None, index_labels = [Some 0, Some 1],
                 columns = [(''x'', [Some 0, Some 5]), (''y'', [Some 0, Some 0]),
                            (''dist'', [Some 0, Some 5])]\<rparr>
                flat_grid ''index'' (''x'', ''y'') = Inl KeyError
   \<and> sample_grids \<lparr>index_name = None, index_labels = [Some 0, Some 1],
                 columns = [(''x'', [Some 0, Some 5]), (''dist'', [Some 0, Some 5])]\<rparr>
                flat_grid ''surface'' (''x'', ''y'') = Inl KeyError"
  by (simp add: sample_grids_def drop_column_def reset_index_def get_column_def set_column_def
      set_index_def grdtrack_def column_names_def flat_grid_def)

text \<open>
  C7, amended: on a well-formed table whose index has no name (or the name
  \<^verbatim>\<open>index\<close>), which has both coordinate columns and no column named \<^verbatim>\<open>index\<close>,
  and for a target name that is neither \<^verbatim>\<open>index\<close> nor a coordinate column,
  \<^verbatim>\<open>sample_grids\<close> returns a table with the index of the input and, but for the
  target column, the columns of the input in their order. The target column occurs
  once, as the last column, with one sampled value per row; sampling the result again
  under the same name gives the same table.
\<close>

theorem sample_grids_frame:
  assumes wf: "wf_frame df"
      and idx: "index_name df = None \<or> index_name df = Some ''index''"
      and ni: "''index'' \<notin> set (column_names df)"
      and nm: "name \<noteq> ''index''" "name \<noteq> cx" "name \<noteq> cy"
      and cs: "get_column df cx = Inr xs" "get_column df cy = Inr ys"
  shows "\<exists>out. sample_grids df g name (cx, cy) = Inr out
           \<and> index_name out = index_name df \<and> index_labels out = index_labels df
           \<and> filter (\<lambda>c. fst c \<noteq> name) (columns out) = filter (\<lambda>c. fst c \<noteq> name) (columns df)
           \<and> filter (\<lambda>c. fst c = name) (columns out) = [(name, grdtrack g xs ys)]
           \<and> last (columns out) = (name, grdtrack g xs ys)
           \<and> wf_frame out
           \<and> sample_grids out g name (cx, cy) = Inr out"
proof -
  let ?n = "length (index_labels df)"
  let ?cols1 = "filter (\<lambda>c. fst c \<noteq> name) (columns df)"
  let ?s = "grdtrack g xs ys"
  let ?out = "df\<lparr>columns := ?cols1 @ [(name, ?s)]\<rparr>"
  have mx: "map_of (columns df) cx = Some xs" and my: "map_of (columns df) cy = Some ys"
    using cs by (auto simp: get_column_def split: option.splits)
  have res: "sample_grids df g name (cx, cy) = Inr ?out"
    using idx ni nm mx my by (rule sample_grids_result)
  have dist: "distinct (column_names df)"
    and rect: "list_all (\<lambda>c. length (snd c) = ?n) (columns df)"
    using wf by (simp_all add: wf_frame_def)
  have f1: "filter (\<lambda>c. fst c \<noteq> name) (columns ?out) = ?cols1" by simp
  have f2: "filter (\<lambda>c. fst c = name) (columns ?out) = [(name, ?s)]"
  proof -
    have "filter (\<lambda>c. fst c = name) ?cols1 = []" by (simp add: filter_empty_conv)
    then show ?thesis by simp
  qed
  have ls: "length ?s = ?n"
    using map_of_length[OF rect mx] map_of_length[OF rect my] by (simp add: grdtrack_def)
  have "distinct (map fst ?cols1)" using dist by (simp add: column_names_def distinct_map_filter)
  moreover have "name \<notin> fst ` set ?cols1" by auto
  ultimately have d': "distinct (column_names ?out)" by (simp add: column_names_def)
  have "list_all (\<lambda>c. length (snd c) = ?n) ?cols1" using rect by (simp add: list_all_iff)
  then have r': "list_all (\<lambda>c. length (snd c) = ?n) (columns ?out)" using ls by simp
  have wf': "wf_frame ?out" using d' r' by (simp add: wf_frame_def)
  have ni': "''index'' \<notin> set (column_names ?out)"
    using ni nm(1) by (auto simp: column_names_def)
  have mx': "map_of (columns ?out) cx = Some xs"
    using mx nm(2) by (simp add: map_of_filter_other map_add_def split: option.splits)
  have my': "map_of (columns ?out) cy = Some ys"
    using my nm(3) by (simp add: map_of_filter_other map_add_def split: option.splits)
  have "sample_grids ?out g name (cx, cy)
          = Inr (?out\<lparr>columns := filter (\<lambda>c. fst c \<noteq> name) (columns ?out) @ [(name, ?s)]\<rparr>)"
    using _ ni' nm mx' my' by (rule sample_grids_result) (use idx in simp)
  then have again: "sample_grids ?out g name (cx, cy) = Inr ?out" by (simp only: f1) simp
  show ?thesis
    using res f1 f2 wf' again by (intro exI[of _ ?out]) simp
qed

theorem sample_grids_frame_witness:
  "wf_frame \<lparr>index_name = None, index_labels = [Some 0, Some 1],
             columns = [(''x'', [Some 0, Some 5]), (''y'', [Some 0, Some 0]),
                        (''dist'', [Some 0, Some 5])]\<rparr>
   \<and> (\<exists>out. sample_grids \<lparr>index_name = None, index_labels = [Some 0, Some 1],
                 columns = [(''x'', [Some 0, Some 5]), (''y'', [Some 0, Some 0]),
                            (''dist'', [Some 0, Some 5])]\<rparr>
                flat_grid ''surface'' (''x'', ''y'') = Inr out
          \<and> index_name out = None \<and> index_labels out = [Some 0, Some 1]
          \<and> filter (\<lambda>c. fst c \<noteq> ''surface'') (columns out)
              = [(''x'', [Some 0, Some 5]), (''y'', [Some 0, Some 0]), (''dist'', [Some 0, Some 5])]
          \<and> last (columns out) = (''surface'', [Some 7, Some 7])
          \<and> sample_grids out flat_grid ''surface'' (''x'', ''y'') = Inr out)"
proof -
  let ?df = "\<lparr>index_name = None, index_labels = [Some 0, Some 1],
             columns = [(''x'', [Some 0, Some 5]), (''y'', [Some 0, Some 0]),
                        (''dist'', [Some 0, Some 5])]\<rparr>"
  have wf: "wf_frame ?df" by (simp add: wf_frame_def column_names_def)
  have idx: "index_name ?df = None \<or> index_name ?df = Some ''index''" by simp
  have ni: "''index'' \<notin> set (column_names ?df)" by (simp add: column_names_def)
  have nm: "''surface'' \<noteq> ''index''" "''surface'' \<noteq> ''x''" "''surface'' \<noteq> ''y''" by simp_all
  have cs: "get_column ?df ''x'' = Inr [Some 0, Some 5]" "get_column ?df ''y'' = Inr [Some 0, Some 0]"
    by (simp_all add: get_column_def)
  obtain out where out:
    "sample_grids ?df flat_grid ''surface'' (''x'', ''y'') = Inr out"
    "index_name out = index_name ?df" "index_labels out = index_labels ?df"
    "filter (\<lambda>c. fst c \<noteq> ''surface'') (columns out)
       = filter (\<lambda>c. fst c \<noteq> ''surface'') (columns ?df)"
    "last (columns out) = (''surface'', grdtrack flat_grid [Some 0, Some 5] [Some 0, Some 0])"
    "sample_grids out flat_grid ''surface'' (''x'', ''y'') = Inr out"
    using sample_grids_frame[OF wf idx ni nm cs, of flat_grid] by blast
  have a: "index_name out = None" "index_labels out = [Some 0, Some 1]"
    using out(2,3) by simp_all
  have b: "filter (\<lambda>c. fst c \<noteq> ''surface'') (columns out)
              = [(''x'', [Some 0, Some 5]), (''y'', [Some 0, Some 0]), (''dist'', [Some 0, Some 5])]"
    using out(4) by simp
  have c: "last (columns out) = (''surface'', [Some 7, Some 7])"
    using out(5) by (simp add: grdtrack_def flat_grid_def)
  from wf out(1) a b c out(6) show ?thesis by - (intro conjI exI[of _ out]; assumption)
qed

section \<open>Tables as objects: which calls write to their argument\<close>

lemma fill_nans_call_same_object:
  "fill_nans_call a h = (Inr r, h') \<Longrightarrow> r = a"
  by (auto simp: fill_nans_call_def split: option.splits sum.splits)

lemma sample_grids_call_keeps_argument:
  assumes "fresh h new" "h a = Some df"
  shows "snd (sample_grids_call a g name coord_names new h) a = Some df"
proof -
  have "new \<noteq> a" using assms by (auto simp: fresh_def)
  then show ?thesis using assms(2) by (simp add: sample_grids_call_def split: sum.splits)
qed

text \<open>
  C9. The claim: no consumer writes to the table it is given. \<^verbatim>\<open>fill_nans\<close> does:
  after the call the object that was passed holds the filled table, and the reference
  returned is the reference that was passed.
\<close>

theorem fill_nans_mutates_argument:
  "fill_nans_call 0
     (Map.empty(0 \<mapsto> \<lparr>index_name = None, index_labels = [Some 0],
                        columns = [(''x'', [Some 0]), (''y'', [Some 0]), (''dist'', [Some 0]),
                                   (''surface'', [Some 100]), (''bed'', [None])]\<rparr>))
   = (Inr 0,
      Map.empty(0 \<mapsto> \<lparr>index_name = None, index_labels = [Some 0],
                       columns = [(''x'', [Some 0]), (''y'', [Some 0]), (''dist'', [Some 0]),
                                  (''surface'', [Some 100]), (''bed'', [Some 100])]\<rparr>))"
  by (simp add: fill_nans_call_def fill_nans_def column_names_def get_column_def set_column_def
      fillna_def)

end
